theory Spec2Isabelle
  imports Complex_Main "HOL-Library.Sublist" "HOL-Library.AList"
begin

section \<open>Strings, paths and the file system\<close>

text \<open>
  JavaScript's \<^verbatim>\<open>String.prototype.includes\<close>: the pattern occurs as a contiguous
  substring. The empty pattern is included in every string.
\<close>

fun str_includes :: "string \<Rightarrow> string \<Rightarrow> bool" where
  "str_includes [] p = (p = [])"
| "str_includes (c # cs) p = (prefix p (c # cs) \<or> str_includes cs p)"

definition is_digit :: "char \<Rightarrow> bool" where
  "is_digit c = (c \<in> set ''0123456789'')"

text \<open>
  Template literals print numbers in decimal (\<^verbatim>\<open>`download_${Date.now()}_${++downloadCounter}`\<close>).
\<close>

function string_of_nat :: "nat \<Rightarrow> string" where
  "string_of_nat n =
     (if n < 10 then [''0123456789'' ! n]
      else string_of_nat (n div 10) @ [''0123456789'' ! (n mod 10)])"
  by pat_completeness auto
termination
  by (relation "measure id") auto

declare string_of_nat.simps [simp del]

text \<open>
  A path is its list of segments, so that \<^verbatim>\<open>path.join(a, 'x', 'y')\<close> is \<open>a @ [''x'', ''y'']\<close>
  and \<^verbatim>\<open>path.dirname\<close> is \<open>butlast\<close>. The file system is a table from paths to nodes; a
  regular file carries its size in bytes.
\<close>

type_synonym path = "string list"

datatype node = File nat | Dir

type_synonym filesystem = "(path \<times> node) list"

definition existsSync :: "filesystem \<Rightarrow> path \<Rightarrow> bool" where
  "existsSync fs p = (map_of fs p \<noteq> None)"

definition entries :: "filesystem \<Rightarrow> path \<Rightarrow> string list" where
  "entries fs p = map (\<lambda>(q, n). last q) (filter (\<lambda>(q, n). q \<noteq> [] \<and> butlast q = p) fs)"

text \<open>\<^verbatim>\<open>fs.readdirSync\<close> throws on a missing path and on a regular file.\<close>

definition readdirSync :: "filesystem \<Rightarrow> path \<Rightarrow> string + string list" where
  "readdirSync fs p =
     (case map_of fs p of
        None \<Rightarrow> Inl ''ENOENT''
      | Some (File n) \<Rightarrow> Inl ''ENOTDIR''
      | Some Dir \<Rightarrow> Inr (entries fs p))"

text \<open>\<^verbatim>\<open>fs.remove\<close> (fs-extra) deletes a file or a whole tree; a missing path is no error.\<close>

definition remove :: "filesystem \<Rightarrow> path \<Rightarrow> filesystem" where
  "remove fs p = filter (\<lambda>(q, n). \<not> prefix p q) fs"

definition writeFile :: "filesystem \<Rightarrow> path \<Rightarrow> nat \<Rightarrow> filesystem" where
  "writeFile fs p n = AList.update p (File n) fs"

text \<open>\<^verbatim>\<open>fs.ensureDir\<close> creates the directory and its missing ancestors (\<^verbatim>\<open>mkdir -p\<close>).\<close>

definition ensureDir :: "filesystem \<Rightarrow> path \<Rightarrow> string + filesystem" where
  "ensureDir fs p =
     (if \<exists>q \<in> set (prefixes p). (case map_of fs q of Some (File n) \<Rightarrow> True | _ \<Rightarrow> False)
      then Inl ''ENOTDIR''
      else Inr (fold (\<lambda>q f. if existsSync f q then f else f @ [(q, Dir)]) (prefixes p) fs))"

section \<open>Configuration and the job table (server.js)\<close>

text \<open>
  The recognised environment variables. \<open>MAX_CONCURRENT_DOWNLOADS\<close> holds what
  \<^verbatim>\<open>parseInt\<close> makes of the variable: \<open>None\<close> when it is unset or not a number (NaN).
\<close>

record config =
  MAX_CONCURRENT_DOWNLOADS :: "int option"
  CLEANUP_AFTER_DOWNLOAD :: "string option"
  DOWNLOAD_PATH :: "path option"
  DAYZ_APP_ID :: "string option"
  NEXT_PUBLIC_API_URL :: "string option"
  STEAM_USERNAME :: "string option"
  PORT :: nat

text \<open>\<^verbatim>\<open>parseInt(process.env.MAX_CONCURRENT_DOWNLOADS) || 3\<close>: NaN and 0 are falsy.\<close>

definition maxConcurrent :: "config \<Rightarrow> int" where
  "maxConcurrent cfg =
     (case MAX_CONCURRENT_DOWNLOADS cfg of
        None \<Rightarrow> 3
      | Some n \<Rightarrow> if n = 0 then 3 else n)"

definition downloadRoot :: "config \<Rightarrow> path" where
  "downloadRoot cfg =
     (case DOWNLOAD_PATH cfg of
        None \<Rightarrow> [''tmp'', ''dayz-workshop-downloads'']
      | Some p \<Rightarrow> if p = [] then [''tmp'', ''dayz-workshop-downloads''] else p)"

definition steamUsername :: "config \<Rightarrow> string" where
  "steamUsername cfg =
     (case STEAM_USERNAME cfg of
        None \<Rightarrow> ''anonymous''
      | Some u \<Rightarrow> if u = [] then ''anonymous'' else u)"

definition appId :: "config \<Rightarrow> string" where
  "appId cfg =
     (case DAYZ_APP_ID cfg of
        None \<Rightarrow> ''221100''
      | Some a \<Rightarrow> if a = [] then ''221100'' else a)"

datatype status = Starting | Preparing | Downloading | Creating_archive | Completed | Error

text \<open>The metadata snapshot returned by the scraper \<^verbatim>\<open>fetchWorkshopInfo\<close>.\<close>

record workshopInfo =
  title :: string
  isValid :: bool
  isPrivate :: bool
  requiresSubscription :: bool
  isDayZ :: bool
  info_appId :: string

text \<open>
  A job record of \<^verbatim>\<open>activeDownloads\<close>. The fields after \<open>zipPath\<close> are absent until
  the pipeline sets them. Times are milliseconds since the epoch.
\<close>

record download =
  d_id :: string
  workshopId :: string
  status :: status
  progress :: int
  startTime :: int
  info :: workshopInfo
  downloadPath :: path
  zipPath :: path
  downloadUrl :: "string option"
  fileSize :: "nat option"
  completedTime :: "int option"
  dl_method :: "string option"
  error :: "string option"
  errorTime :: "int option"

text \<open>
  The module-level state: the \<^verbatim>\<open>Map\<close> \<open>activeDownloads\<close> (an association list in
  insertion order), \<open>downloadCounter\<close>, the \<^verbatim>\<open>Set\<close> \<open>cleanupQueue\<close>, and the disk.
\<close>

record server =
  activeDownloads :: "(string \<times> download) list"
  downloadCounter :: nat
  cleanupQueue :: "path list"
  fsys :: filesystem

definition initial :: "filesystem \<Rightarrow> server" where
  "initial fs = \<lparr>activeDownloads = [], downloadCounter = 0, cleanupQueue = [], fsys = fs\<rparr>"

definition get :: "server \<Rightarrow> string \<Rightarrow> download option" where
  "get st k = map_of (activeDownloads st) k"

definition set_download :: "string \<Rightarrow> download \<Rightarrow> server \<Rightarrow> server" where
  "set_download k d st = st\<lparr>activeDownloads := AList.update k d (activeDownloads st)\<rparr>"

definition delete_download :: "string \<Rightarrow> server \<Rightarrow> server" where
  "delete_download k st = st\<lparr>activeDownloads := AList.delete k (activeDownloads st)\<rparr>"

definition size_downloads :: "server \<Rightarrow> nat" where
  "size_downloads st = length (activeDownloads st)"

text \<open>\<^verbatim>\<open>url.match(/id=(\d+)/)\<close>: the leftmost \<^verbatim>\<open>id=\<close> followed by a digit, with its digit run.\<close>

fun extractWorkshopId :: "string \<Rightarrow> string option" where
  "extractWorkshopId [] = None"
| "extractWorkshopId (c # cs) =
     (if prefix ''id='' (c # cs) \<and> takeWhile is_digit (drop 3 (c # cs)) \<noteq> []
      then Some (takeWhile is_digit (drop 3 (c # cs)))
      else extractWorkshopId cs)"

definition generateDownloadUrl :: "config \<Rightarrow> string \<Rightarrow> string" where
  "generateDownloadUrl cfg downloadId =
     (case NEXT_PUBLIC_API_URL cfg of
        None \<Rightarrow> ''http://localhost:'' @ string_of_nat (PORT cfg)
      | Some b \<Rightarrow> if b = [] then ''http://localhost:'' @ string_of_nat (PORT cfg) else b)
     @ ''/api/download/'' @ downloadId @ ''/file''"

subsection \<open>Responses\<close>

datatype body =
    ErrorBody string
  | TooMany string nat int
  | Rejected string workshopInfo
  | Started string string workshopInfo string
  | StatusBody download
  | CleanupBody string string
  | ClearedBody string nat
  | FileBody nat nat
  | PartialBody int int nat

datatype response = Response (code: nat) (payload: body)

subsection \<open>POST /api/download: admission\<close>

text \<open>
  The handler up to its response. \<open>url\<close> is the \<^verbatim>\<open>url\<close> field of the request body when
  it is a string (\<open>None\<close> when the field is missing), \<open>now\<close> the clock reading, \<open>wi\<close> what
  the scraper returns for the item. A field that holds a value of another type is not
  covered: a truthy one has no \<^verbatim>\<open>match\<close> method, and the call throws. The scraper is awaited after the cap check: \<open>admit\<close> is the part of the handler
  that runs once the scraper has answered, \<open>submit\<close> the handler when no other handler
  runs during the wait.
\<close>

definition admit :: "config \<Rightarrow> string \<Rightarrow> int \<Rightarrow> workshopInfo \<Rightarrow> server \<Rightarrow> response \<times> server" where
  "admit cfg wid now wi st =
     (if \<not> isValid wi
      then (Response 400 (Rejected ''Workshop item not found or not accessible'' wi), st)
      else if \<not> isDayZ wi
      then (Response 400 (Rejected ''This is not a DayZ workshop item'' wi), st)
      else
        let c = downloadCounter st + 1;
            downloadId = ''download_'' @ string_of_nat (nat now) @ ''_'' @ string_of_nat c;
            dp = downloadRoot cfg @ [downloadId];
            zp = dp @ [wid @ ''.zip''];
            downloadData = \<lparr>d_id = downloadId, workshopId = wid, status = Starting,
              progress = 0, startTime = now, info = wi, downloadPath = dp, zipPath = zp,
              downloadUrl = None, fileSize = None, completedTime = None,
              dl_method = None, error = None, errorTime = None\<rparr>
        in (Response 200 (Started downloadId wid wi (''/api/status/'' @ downloadId)),
            set_download downloadId downloadData
              (st\<lparr>downloadCounter := c,
                  cleanupQueue := (if dp \<in> set (cleanupQueue st) then cleanupQueue st
                                   else cleanupQueue st @ [dp])\<rparr>)))"

definition submit :: "config \<Rightarrow> string option \<Rightarrow> int \<Rightarrow> workshopInfo \<Rightarrow> server \<Rightarrow> response \<times> server" where
  "submit cfg url now wi st =
     (case url of
        None \<Rightarrow> (Response 400 (ErrorBody ''URL is required''), st)
      | Some u \<Rightarrow>
          if u = [] then (Response 400 (ErrorBody ''URL is required''), st)
          else (case extractWorkshopId u of
            None \<Rightarrow> (Response 400 (ErrorBody ''Invalid Steam Workshop URL''), st)
          | Some wid \<Rightarrow>
              if int (size_downloads st) \<ge> maxConcurrent cfg
              then (Response 429
                      (TooMany ''Too many concurrent downloads. Please try again later.''
                         (size_downloads st) (maxConcurrent cfg)), st)
              else admit cfg wid now wi st))"

subsection \<open>The closures of the pipeline: updateProgress, updateStatus\<close>

text \<open>
  Both closures write the record only while it is still in the table. \<open>updateProgress\<close>
  stores \<^verbatim>\<open>Math.min(progress, 100)\<close>; \<open>updateStatus\<close> spreads \<open>additionalData\<close> over the
  record after the new status, here a function on records.
\<close>

definition updateProgress :: "string \<Rightarrow> int \<Rightarrow> server \<Rightarrow> server" where
  "updateProgress downloadId p st =
     (case get st downloadId of
        None \<Rightarrow> st
      | Some d \<Rightarrow> set_download downloadId (d\<lparr>progress := min p 100\<rparr>) st)"

definition updateStatus :: "string \<Rightarrow> status \<Rightarrow> (download \<Rightarrow> download) \<Rightarrow> server \<Rightarrow> server" where
  "updateStatus downloadId s additionalData st =
     (case get st downloadId of
        None \<Rightarrow> st
      | Some d \<Rightarrow> set_download downloadId (additionalData (d\<lparr>status := s\<rparr>)) st)"

subsection \<open>cleanupFiles\<close>

text \<open>
  Removal happens when forced or when \<^verbatim>\<open>CLEANUP_AFTER_DOWNLOAD === 'true'\<close>. Each existing
  path is removed from the disk and from \<open>cleanupQueue\<close>. The disk of the model never
  refuses a removal, so the source's \<^verbatim>\<open>catch\<close>, which only logs, has no counterpart.
\<close>

definition shouldCleanup :: "config \<Rightarrow> bool \<Rightarrow> bool" where
  "shouldCleanup cfg force = (force \<or> CLEANUP_AFTER_DOWNLOAD cfg = Some ''true'')"

definition cleanupFiles :: "config \<Rightarrow> path list \<Rightarrow> bool \<Rightarrow> server \<Rightarrow> server" where
  "cleanupFiles cfg paths force st =
     (if shouldCleanup cfg force
      then fold (\<lambda>filePath s.
             if existsSync (fsys s) filePath
             then s\<lparr>fsys := remove (fsys s) filePath,
                    cleanupQueue := removeAll filePath (cleanupQueue s)\<rparr>
             else s) paths st
      else st)"

subsection \<open>GET /api/status/:downloadId\<close>

text \<open>
  \<^verbatim>\<open>download\<close> is the object stored in the map, so the assignment to
  \<^verbatim>\<open>download.downloadUrl\<close> writes the stored record; \<^verbatim>\<open>res.json\<close> then serialises it.
\<close>

definition status_query :: "config \<Rightarrow> string \<Rightarrow> server \<Rightarrow> response \<times> server" where
  "status_query cfg downloadId st =
     (case get st downloadId of
        None \<Rightarrow> (Response 404 (ErrorBody ''Download not found''), st)
      | Some download \<Rightarrow>
          let d = (if status download = Completed \<and> zipPath download \<noteq> []
                   then download\<lparr>downloadUrl := Some (generateDownloadUrl cfg downloadId)\<rparr>
                   else download)
          in (Response 200 (StatusBody d), set_download downloadId d st))"

subsection \<open>GET /api/download/:downloadId/file\<close>

text \<open>
  The \<^verbatim>\<open>Range\<close> header after \<^verbatim>\<open>parseInt\<close>: each bound is a number, not a number, or (for the
  end) absent. \<^verbatim>\<open>fs.createReadStream\<close> throws on a bound that is not a non-negative
  integer and on \<open>start > end\<close>; the handler's \<^verbatim>\<open>catch\<close> answers 500.
  \<open>finished\<close> tells whether the response's \<^verbatim>\<open>finish\<close> event fires, which is where the
  handler of a request without a range cleans up and drops the record.
\<close>

datatype bound = Absent | NaN | Num int

definition statSize :: "filesystem \<Rightarrow> path \<Rightarrow> nat" where
  "statSize fs p = (case map_of fs p of Some (File n) \<Rightarrow> n | _ \<Rightarrow> 4096)"

definition download_file ::
  "config \<Rightarrow> string \<Rightarrow> (bound \<times> bound) option \<Rightarrow> bool \<Rightarrow> server \<Rightarrow> response \<times> server" where
  "download_file cfg downloadId rng finished st =
     (case get st downloadId of
        None \<Rightarrow> (Response 404 (ErrorBody ''Download not found''), st)
      | Some download \<Rightarrow>
          if status download \<noteq> Completed
          then (Response 400 (ErrorBody ''Download not completed yet''), st)
          else if \<not> existsSync (fsys st) (zipPath download)
          then (Response 404 (ErrorBody ''File not found''), st)
          else
            let sz = statSize (fsys st) (zipPath download) in
            (case rng of
               Some (s, e) \<Rightarrow>
                 (case (s, (case e of Absent \<Rightarrow> Num (int sz - 1) | x \<Rightarrow> x)) of
                    (Num start, Num stop) \<Rightarrow>
                      if start < 0 \<or> start > stop
                      then (Response 500 (ErrorBody ''Internal server error''), st)
                      else (Response 206 (PartialBody start stop sz), st)
                  | _ \<Rightarrow> (Response 500 (ErrorBody ''Internal server error''), st))
             | None \<Rightarrow>
                 (Response 200 (FileBody sz sz),
                  if finished
                  then delete_download downloadId
                         (cleanupFiles cfg [butlast (zipPath download)] False st)
                  else st)))"

subsection \<open>DELETE /api/cleanup/:downloadId, POST /api/clear, the periodic sweep\<close>

definition cleanup :: "config \<Rightarrow> string \<Rightarrow> server \<Rightarrow> response \<times> server" where
  "cleanup cfg downloadId st =
     (case get st downloadId of
        None \<Rightarrow> (Response 404 (ErrorBody ''Download not found''), st)
      | Some download \<Rightarrow>
          if downloadPath download \<noteq> []
          then (Response 200 (CleanupBody ''Cleanup completed'' downloadId),
                delete_download downloadId (cleanupFiles cfg [downloadPath download] True st))
          else (Response 404 (ErrorBody ''Download not found''), st))"

definition clear :: "config \<Rightarrow> server \<Rightarrow> response \<times> server" where
  "clear cfg st =
     (let cleared = size_downloads st;
          st' = fold (\<lambda>(downloadId, download) s.
                  if downloadPath download \<noteq> []
                  then cleanupFiles cfg [downloadPath download] True s else s)
                (activeDownloads st) st
      in (Response 200 (ClearedBody ''All downloads cleared and cleaned up'' cleared),
          st'\<lparr>activeDownloads := [], cleanupQueue := [], downloadCounter := 0\<rparr>))"

definition maxAge :: int where
  "maxAge = 7200000"

definition sweep :: "config \<Rightarrow> int \<Rightarrow> server \<Rightarrow> server" where
  "sweep cfg now st =
     fold (\<lambda>(downloadId, download) s.
        if now - startTime download > maxAge
        then delete_download downloadId
               (if downloadPath download \<noteq> []
                then cleanupFiles cfg [downloadPath download] True s else s)
        else s)
      (activeDownloads st) st"

subsection \<open>The pipeline's error handler\<close>

text \<open>
  The \<^verbatim>\<open>catch\<close> of the asynchronous pipeline: the workspace is removed (forced), then the
  record, if still present, becomes \<open>Error\<close> with the message and the time.
\<close>

definition pipeline_catch :: "config \<Rightarrow> string \<Rightarrow> string \<Rightarrow> int \<Rightarrow> server \<Rightarrow> server" where
  "pipeline_catch cfg downloadId msg now st =
     (let st1 = (case get st downloadId of
                   None \<Rightarrow> st
                 | Some downloadData \<Rightarrow>
                     if downloadPath downloadData \<noteq> []
                     then cleanupFiles cfg [downloadPath downloadData] True st else st)
      in case get st1 downloadId of
           None \<Rightarrow> st1
         | Some download \<Rightarrow>
             set_download downloadId
               (download\<lparr>status := Error, error := Some msg, errorTime := Some now\<rparr>) st1)"

section \<open>The external-client adapter (AdvancedSteamDownloader)\<close>

text \<open>
  One invocation of the steam client, as the adapter observes it: the chunks delivered
  by the \<^verbatim>\<open>data\<close> events of its standard output (markers are searched per chunk), the way
  it ends (the \<^verbatim>\<open>close\<close> event with the exit code, the adapter's own timer, or the \<^verbatim>\<open>error\<close>
  event), and what it did to the disk.
\<close>

datatype proc_end = Exit int | Timeout | SpawnError string

record run =
  chunks :: "string list"
  ending :: proc_end
  effect :: "filesystem \<Rightarrow> filesystem"

definition seen :: "string list \<Rightarrow> string \<Rightarrow> bool" where
  "seen cs marker = (\<exists>c \<in> set cs. str_includes c marker)"

text \<open>The value a download promise resolves with; a rejection is the error's message.\<close>

record dl_result =
  success :: bool
  via :: string
  content :: path
  stdout :: string

definition expectedPath :: "path \<Rightarrow> string \<Rightarrow> string \<Rightarrow> path" where
  "expectedPath dp app wid = dp @ [''steamapps'', ''workshop'', ''content'', app, wid]"

text \<open>
  \<open>downloadWithCachedSession\<close>: a re-authentication marker wins; otherwise only files
  under the expected path make a success. A failing \<^verbatim>\<open>readdirSync\<close> is caught there.
\<close>

definition needsReauth :: "run \<Rightarrow> bool" where
  "needsReauth r =
     (seen (chunks r) ''Steam Guard'' \<or> seen (chunks r) ''Two-factor''
      \<or> seen (chunks r) ''Invalid Password'' \<or> seen (chunks r) ''Login Failure'')"

definition needsSteamGuard :: "run \<Rightarrow> bool" where
  "needsSteamGuard r = (seen (chunks r) ''Steam Guard'' \<or> seen (chunks r) ''Two-factor'')"

definition has_entries :: "filesystem \<Rightarrow> path \<Rightarrow> bool" where
  "has_entries fs p = (case readdirSync fs p of Inl e \<Rightarrow> False | Inr files \<Rightarrow> files \<noteq> [])"

definition downloadWithCachedSession ::
  "run \<Rightarrow> filesystem \<Rightarrow> path \<Rightarrow> string \<Rightarrow> string \<Rightarrow> string + dl_result" where
  "downloadWithCachedSession r fs dp app wid =
     (case ending r of
        Timeout \<Rightarrow> Inl ''Download timeout''
      | SpawnError e \<Rightarrow> Inl e
      | Exit c \<Rightarrow>
          let hasError = (seen (chunks r) ''ERROR!'' \<or> seen (chunks r) ''failed (Failure)''
                 \<or> seen (chunks r) ''No subscription'' \<or> seen (chunks r) ''Access Denied'')
          in if needsReauth r then Inl ''SESSION_EXPIRED''
             else if existsSync fs (expectedPath dp app wid)
                     \<and> has_entries fs (expectedPath dp app wid)
             then Inr \<lparr>success = True, via = ''cached_session'',
                       content = expectedPath dp app wid, stdout = concat (chunks r)\<rparr>
             else Inl (''Download failed: '' @
                       (if hasError then ''SteamCMD error'' else ''No content found'')))"

text \<open>
  \<open>downloadWithFullLogin\<close> and \<open>downloadAnonymous\<close> read the directory outside any
  \<^verbatim>\<open>try\<close>, inside the listener of the \<^verbatim>\<open>close\<close> event, after the timer has been cleared.
  When \<^verbatim>\<open>readdirSync\<close> throws there, neither \<^verbatim>\<open>resolve\<close> nor \<^verbatim>\<open>reject\<close> is reached: the
  promise never settles. The result is an option, \<open>None\<close> for a promise that stays
  pending.
\<close>

definition downloadWithFullLogin ::
  "run \<Rightarrow> filesystem \<Rightarrow> path \<Rightarrow> string \<Rightarrow> string \<Rightarrow> (string + dl_result) option" where
  "downloadWithFullLogin r fs dp app wid =
     (case ending r of
        Timeout \<Rightarrow> Some (Inl ''Download timeout'')
      | SpawnError e \<Rightarrow> Some (Inl e)
      | Exit c \<Rightarrow>
          if needsSteamGuard r then Some (Inl ''STEAM_GUARD_REQUIRED'')
             else if existsSync fs (expectedPath dp app wid)
             then (case readdirSync fs (expectedPath dp app wid) of
                     Inl e \<Rightarrow> None
                   | Inr files \<Rightarrow>
                       if files \<noteq> []
                       then Some (Inr \<lparr>success = True, via = ''full_login'',
                                 content = expectedPath dp app wid, stdout = concat (chunks r)\<rparr>)
                       else Some (Inl ''Download failed''))
             else Some (Inl ''Download failed''))"

definition downloadAnonymous ::
  "run \<Rightarrow> filesystem \<Rightarrow> path \<Rightarrow> string \<Rightarrow> string \<Rightarrow> (string + dl_result) option" where
  "downloadAnonymous r fs dp app wid =
     (case ending r of
        Timeout \<Rightarrow> Some (Inl ''Download timeout'')
      | SpawnError e \<Rightarrow> Some (Inl e)
      | Exit c \<Rightarrow>
          let hasError = (seen (chunks r) ''ERROR!'' \<or> seen (chunks r) ''No subscription'');
              failure = (if hasError
                         then Inl ''Anonymous download failed - item may require Steam account''
                         else Inl ''No content downloaded'')
          in if existsSync fs (expectedPath dp app wid)
             then (case readdirSync fs (expectedPath dp app wid) of
                     Inl e \<Rightarrow> None
                   | Inr files \<Rightarrow>
                       if files \<noteq> []
                       then Some (Inr \<lparr>success = True, via = ''anonymous'',
                                 content = expectedPath dp app wid, stdout = concat (chunks r)\<rparr>)
                       else Some failure)
             else Some failure)"

text \<open>
  What one call of the adapter's \<open>downloadWorkshopItem\<close> meets: the verdict of
  \<open>isAuthenticated\<close> (it consults the clock, the credential files and a verification
  process, and is taken as given), the client run in cached-session mode, and the run
  with a full or anonymous login that follows when there is no session or it expired.
  The call is pending (\<open>None\<close>) when the login it awaits is.
\<close>

record attempt =
  isAuth :: bool
  cached_run :: run
  login_run :: run

definition downloader_downloadWorkshopItem ::
  "attempt \<Rightarrow> string \<Rightarrow> filesystem \<Rightarrow> path \<Rightarrow> string \<Rightarrow> string
     \<Rightarrow> (string + dl_result) option \<times> filesystem" where
  "downloader_downloadWorkshopItem a user fs dp app wid =
     (let fs1 = (if isAuth a then effect (cached_run a) fs else fs);
          r1 = (if isAuth a then downloadWithCachedSession (cached_run a) fs1 dp app wid
                else Inl ''SESSION_EXPIRED'')
      in case r1 of
           Inr res \<Rightarrow> (Some (Inr res), fs1)
         | Inl e \<Rightarrow>
             if e \<noteq> ''SESSION_EXPIRED'' then (Some (Inl e), fs1)
             else let fs2 = effect (login_run a) fs1
                  in if user \<noteq> ''anonymous''
                     then (downloadWithFullLogin (login_run a) fs2 dp app wid, fs2)
                     else (downloadAnonymous (login_run a) fs2 dp app wid, fs2))"

subsection \<open>retryDownload\<close>

definition retryCount :: nat where
  "retryCount = 5"

definition retryDelay :: int where
  "retryDelay = 10000"

text \<open>
  The result of the loop together with what it did: the number of the last attempt
  made, the waits (milliseconds) between attempts in order, the messages of the errors
  its \<^verbatim>\<open>catch\<close> block received (it logs each as \<^verbatim>\<open>Attempt n failed\<close>), in order, and the disk
  it leaves. The outcome is \<open>None\<close> when the loop awaits an attempt that stays pending;
  the other fields then tell how far it came.
\<close>

record retry_outcome =
  outcome :: "(string + dl_result) option"
  attempts_made :: nat
  delays :: "int list"
  failures :: "string list"
  disk :: filesystem

text \<open>
  The loop rethrows at once an error whose message includes \<^verbatim>\<open>STEAM_GUARD_REQUIRED\<close>;
  every other error is followed by another attempt while attempts remain.
\<close>

definition retryable :: "string \<Rightarrow> bool" where
  "retryable msg = (\<not> str_includes msg ''STEAM_GUARD_REQUIRED'')"

definition verified :: "filesystem \<Rightarrow> string + dl_result \<Rightarrow> string + dl_result" where
  "verified fs r =
     (case r of
        Inl e \<Rightarrow> Inl e
      | Inr res \<Rightarrow>
          if success res \<and> content res \<noteq> [] \<and> existsSync fs (content res)
          then (case readdirSync fs (content res) of
                  Inl e \<Rightarrow> Inl e
                | Inr files \<Rightarrow>
                    if files \<noteq> [] then Inr res else Inl ''Download verification failed'')
          else Inl ''Download verification failed'')"

function retry_loop ::
  "(nat \<Rightarrow> attempt) \<Rightarrow> string \<Rightarrow> path \<Rightarrow> string \<Rightarrow> string
     \<Rightarrow> nat \<Rightarrow> int list \<Rightarrow> string list \<Rightarrow> string \<Rightarrow> filesystem \<Rightarrow> retry_outcome" where
  "retry_loop env user dp app wid attempt ds caught lastError fs =
     (if attempt \<le> retryCount
      then
        (let fs0 = (if attempt > 1 \<and> existsSync fs (dp @ [''steamapps''])
                    then remove fs (dp @ [''steamapps'']) else fs);
             rf = downloader_downloadWorkshopItem (env attempt) user fs0 dp app wid
         in case fst rf of
              None \<Rightarrow> \<lparr>outcome = None, attempts_made = attempt, delays = ds,
                        failures = caught, disk = snd rf\<rparr>
            | Some result \<Rightarrow>
               (case verified (snd rf) result of
                  Inr res \<Rightarrow> \<lparr>outcome = Some (Inr res), attempts_made = attempt, delays = ds,
                               failures = caught, disk = snd rf\<rparr>
                | Inl e \<Rightarrow>
                    if \<not> retryable e
                    then \<lparr>outcome = Some (Inl e), attempts_made = attempt, delays = ds,
                          failures = caught @ [e], disk = snd rf\<rparr>
                    else retry_loop env user dp app wid (attempt + 1)
                           (if attempt < retryCount then ds @ [retryDelay * int attempt] else ds)
                           (caught @ [e]) e (snd rf)))
      else \<lparr>outcome = Some (Inl (''Failed after '' @ string_of_nat retryCount
                                   @ '' attempts. Last error: '' @ lastError)),
            attempts_made = attempt - 1, delays = ds, failures = caught, disk = fs\<rparr>)"
  by pat_completeness auto
termination
  by (relation "measure (\<lambda>(env, user, dp, app, wid, attempt, ds, caught, lastError, fs).
                  Suc retryCount - attempt)")
     auto

declare retry_loop.simps [simp del]

definition retryDownload ::
  "(nat \<Rightarrow> attempt) \<Rightarrow> string \<Rightarrow> path \<Rightarrow> string \<Rightarrow> string \<Rightarrow> filesystem \<Rightarrow> retry_outcome" where
  "retryDownload env user dp app wid fs = retry_loop env user dp app wid 1 [] [] [] fs"

section \<open>The download step of server.js\<close>

text \<open>
  \<open>downloadWorkshopItem\<close> of server.js runs the adapter's retry loop and, when that
  throws, falls back to one plain invocation of the client whose success is judged by the
  exit code and the error markers. It reports progress through \<open>progressCallback\<close>; the
  model returns the arguments of those calls in order. In the fallback every chunk that
  includes \<^verbatim>\<open>downloading\<close> raises the counter by 2, capped at 55. A fallback run that ends
  by the timer is followed up to the rejection only. While the retry loop is pending so
  is the step (\<open>None\<close>), after its first progress call.
\<close>

record wrapper_env =
  steamcmdFound :: bool
  attempts :: "nat \<Rightarrow> attempt"
  fallback_run :: run

record wrapper_result =
  w_success :: bool
  w_output :: string
  w_method :: "string option"

fun fallback_progress :: "string list \<Rightarrow> int \<Rightarrow> int list" where
  "fallback_progress [] progressCounter = []"
| "fallback_progress (dataStr # rest) progressCounter =
     (if str_includes dataStr ''downloading''
      then min (progressCounter + 2) 55 # fallback_progress rest (min (progressCounter + 2) 55)
      else fallback_progress rest progressCounter)"

definition downloadWorkshopItem ::
  "config \<Rightarrow> wrapper_env \<Rightarrow> string \<Rightarrow> path \<Rightarrow> filesystem
     \<Rightarrow> (string + wrapper_result) option \<times> int list \<times> filesystem" where
  "downloadWorkshopItem cfg env wid dp fs =
     (if \<not> steamcmdFound env
      then (Some (Inl ''SteamCMD not found. Please install SteamCMD first.''), [], fs)
      else
        let ro = retryDownload (attempts env) (steamUsername cfg) dp (appId cfg) wid fs
        in case outcome ro of
             None \<Rightarrow> (None, [30], disk ro)
           | Some (Inr res) \<Rightarrow>
               (Some (Inr \<lparr>w_success = True, w_output = stdout res, w_method = Some (via res)\<rparr>),
                [30, 60], disk ro)
           | Some (Inl e) \<Rightarrow>
               let r = fallback_run env;
                   fs' = effect r (disk ro);
                   calls = [30, 35] @ fallback_progress (chunks r) 35;
                   hasError = (seen (chunks r) ''ERROR!'' \<or> seen (chunks r) ''failed (Failure)''
                      \<or> seen (chunks r) ''No subscription'' \<or> seen (chunks r) ''Access Denied''
                      \<or> seen (chunks r) ''Item not found'')
               in case ending r of
                    Timeout \<Rightarrow>
                      (Some (Inl ''Download timeout - The workshop item may be too large or require subscription''),
                       calls, fs')
                  | SpawnError m \<Rightarrow> (Some (Inl m), calls, fs')
                  | Exit c \<Rightarrow>
                      (if c \<noteq> 0 \<or> hasError
                       then Some (Inl ''SteamCMD failed: Workshop item may require subscription, be private, or not exist. Try using a Steam account instead of anonymous login.'')
                       else Some (Inr \<lparr>w_success = True, w_output = concat (chunks r), w_method = None\<rparr>),
                       calls @ [60], fs'))"

section \<open>The archive builder (createZipArchive)\<close>

text \<open>
  What the archiver library does during one build: its \<^verbatim>\<open>progress\<close> events as pairs
  (processed, total) of entry counts, how the build ends (the output stream closes
  after \<^verbatim>\<open>archive.pointer()\<close> bytes, or one of the failures the promise rejects on), and
  the size of the partial file a failed build leaves.
\<close>

datatype archive_end =
    Closed nat
  | OutputError string
  | ArchiveError string
  | ArchiveWarning string
  | FinalizeError string
  | ArchiveTimeout

record archiver_run =
  progress_events :: "(nat \<times> nat) list"
  archive_end :: archive_end
  partial_size :: nat

text \<open>
  \<^verbatim>\<open>Math.min(70 + Math.floor((processed / total) * 25), 95)\<close>, with the quotient taken
  exactly.
\<close>

definition archive_percent :: "nat \<times> nat \<Rightarrow> int" where
  "archive_percent e = min (70 + int ((fst e * 25) div snd e)) 95"

fun find_alternative :: "filesystem \<Rightarrow> path list \<Rightarrow> string + path option" where
  "find_alternative fs [] = Inr None"
| "find_alternative fs (altPath # rest) =
     (if existsSync fs altPath
      then (case readdirSync fs altPath of
              Inl e \<Rightarrow> Inl e
            | Inr files \<Rightarrow> if files \<noteq> [] then Inr (Some altPath) else find_alternative fs rest)
      else find_alternative fs rest)"

definition locate_content :: "config \<Rightarrow> filesystem \<Rightarrow> path \<Rightarrow> string \<Rightarrow> string + path" where
  "locate_content cfg fs sourcePath wid =
     (let workshopContentPath = expectedPath sourcePath (appId cfg) wid
      in if existsSync fs workshopContentPath
         then (case readdirSync fs workshopContentPath of
                 Inl e \<Rightarrow> Inl e
               | Inr files \<Rightarrow>
                   if files \<noteq> [] then Inr workshopContentPath
                   else Inl ''Workshop content folder is empty'')
         else (case find_alternative fs
                      [sourcePath @ [''steamapps'', ''workshop'', ''content'', wid],
                       sourcePath @ [''workshop'', ''content'', appId cfg, wid],
                       sourcePath @ [''content'', wid],
                       sourcePath] of
                 Inl e \<Rightarrow> Inl e
               | Inr None \<Rightarrow> Inl ''No workshop content found''
               | Inr (Some p) \<Rightarrow> Inr p))"

definition createZipArchive ::
  "config \<Rightarrow> archiver_run \<Rightarrow> filesystem \<Rightarrow> path \<Rightarrow> path \<Rightarrow> string
     \<Rightarrow> (string + path) \<times> int list \<times> filesystem" where
  "createZipArchive cfg ar fs sourcePath outputPath wid =
     (case locate_content cfg fs sourcePath wid of
        Inl e \<Rightarrow> (Inl e, [], writeFile fs outputPath 0)
      | Inr src \<Rightarrow>
          let calls = map archive_percent (filter (\<lambda>e. snd e > 0) (progress_events ar))
          in case archive_end ar of
               Closed n \<Rightarrow>
                 if n > 0 then (Inr outputPath, calls @ [100], writeFile fs outputPath n)
                 else (Inl ''Created ZIP file is empty'', calls, writeFile fs outputPath 0)
             | OutputError e \<Rightarrow> (Inl e, calls, writeFile fs outputPath (partial_size ar))
             | ArchiveError e \<Rightarrow> (Inl e, calls, writeFile fs outputPath (partial_size ar))
             | ArchiveWarning e \<Rightarrow> (Inl e, calls, writeFile fs outputPath (partial_size ar))
             | FinalizeError e \<Rightarrow> (Inl e, calls, writeFile fs outputPath (partial_size ar))
             | ArchiveTimeout \<Rightarrow>
                 (Inl ''Archive creation timeout - file may be too large'', calls,
                  writeFile fs outputPath (partial_size ar)))"

section \<open>The pipeline of POST /api/download\<close>

text \<open>Content verification after the download step; \<^verbatim>\<open>readdirSync\<close> is recursive here.\<close>

definition descendants :: "filesystem \<Rightarrow> path \<Rightarrow> path list" where
  "descendants fs p = filter (\<lambda>q. strict_prefix p q) (map fst fs)"

fun foundAnyContent :: "filesystem \<Rightarrow> path list \<Rightarrow> string + bool" where
  "foundAnyContent fs [] = Inr False"
| "foundAnyContent fs (searchPath # rest) =
     (case map_of fs searchPath of
        None \<Rightarrow> foundAnyContent fs rest
      | Some (File n) \<Rightarrow> Inl ''ENOTDIR''
      | Some Dir \<Rightarrow> if descendants fs searchPath \<noteq> [] then Inr True
                    else foundAnyContent fs rest)"

definition verify_content :: "config \<Rightarrow> filesystem \<Rightarrow> path \<Rightarrow> string \<Rightarrow> string + unit" where
  "verify_content cfg fs dp wid =
     (if \<not> existsSync fs (expectedPath dp (appId cfg) wid)
      then (case foundAnyContent fs [dp @ [''steamapps''], dp @ [''workshop''], dp] of
              Inl e \<Rightarrow> Inl e
            | Inr found \<Rightarrow>
                if \<not> found then Inl ''No workshop content was downloaded'' else Inr ())
      else Inr ())"

definition minZipSize :: nat where
  "minZipSize = 512"

text \<open>
  Archive verification and publication: from the resolution of \<open>createZipArchive\<close> to
  the write of the \<open>Completed\<close> record nothing is awaited.
\<close>

definition verify_archive ::
  "config \<Rightarrow> string \<Rightarrow> path \<Rightarrow> path \<Rightarrow> string option \<Rightarrow> int \<Rightarrow> server \<Rightarrow> string + server" where
  "verify_archive cfg downloadId archivePath zp m now st =
     (if \<not> existsSync (fsys st) archivePath then Inl ''ZIP file was not created''
      else let sz = statSize (fsys st) archivePath
           in if sz < minZipSize
              then Inl (''ZIP file too small ('' @ string_of_nat sz
                        @ '' bytes) - likely empty or corrupted'')
              else Inr (updateStatus downloadId Completed
                     (\<lambda>d. d\<lparr>progress := 100, zipPath := zp,
                             downloadUrl := Some (generateDownloadUrl cfg downloadId),
                             fileSize := Some sz, completedTime := Some now,
                             dl_method := m\<rparr>) st))"

record pipeline_env =
  download_env :: wrapper_env
  archiver :: archiver_run
  clock :: int

fun run_updates :: "('a \<Rightarrow> 's \<Rightarrow> 's) \<Rightarrow> 'a list \<Rightarrow> 's \<Rightarrow> 's list" where
  "run_updates f [] s = []"
| "run_updates f (x # xs) s = f x s # run_updates f xs (f x s)"

text \<open>
  The asynchronous body started by the submit handler, run without another handler in
  between. It returns the successive states, one after each of its writes, so that the
  last element is the state it ends in. \<open>archive_phase\<close> is its second half, from the
  \<open>Creating_archive\<close> status on; every \<^verbatim>\<open>throw\<close> ends in the \<^verbatim>\<open>catch\<close> of the body. When
  the download step stays pending the body writes nothing more; \<open>download_settles\<close> tells
  whether the step returns or throws, on the disk the body calls it with.
\<close>

definition archive_phase ::
  "config \<Rightarrow> pipeline_env \<Rightarrow> string \<Rightarrow> string \<Rightarrow> path \<Rightarrow> path \<Rightarrow> string option
     \<Rightarrow> server \<Rightarrow> server list" where
  "archive_phase cfg env downloadId wid dp zp m s4 =
     (let s5 = updateStatus downloadId Creating_archive (\<lambda>d. d\<lparr>progress := 65\<rparr>) s4;
          zr = createZipArchive cfg (archiver env) (fsys s5) dp zp wid;
          tr2 = run_updates (updateProgress downloadId) (fst (snd zr)) s5;
          s6 = (last (s5 # tr2))\<lparr>fsys := snd (snd zr)\<rparr>
      in [s5] @ tr2 @ [s6] @
         (case fst zr of
            Inl e \<Rightarrow> [pipeline_catch cfg downloadId e (clock env) s6]
          | Inr archivePath \<Rightarrow>
              (case verify_archive cfg downloadId archivePath zp m (clock env) s6 of
                 Inl e \<Rightarrow> [pipeline_catch cfg downloadId e (clock env) s6]
               | Inr s7 \<Rightarrow> [s7])))"

definition pipeline ::
  "config \<Rightarrow> pipeline_env \<Rightarrow> string \<Rightarrow> string \<Rightarrow> path \<Rightarrow> path \<Rightarrow> server \<Rightarrow> server list" where
  "pipeline cfg env downloadId wid dp zp st0 =
     (let s1 = updateStatus downloadId Preparing (\<lambda>d. d\<lparr>progress := 5\<rparr>) st0;
          s2 = s1\<lparr>fsys := (case ensureDir (fsys s1) dp of Inl e \<Rightarrow> fsys s1 | Inr f \<Rightarrow> f)\<rparr>;
          s3 = updateStatus downloadId Downloading (\<lambda>d. d\<lparr>progress := 10\<rparr>) s2;
          dl = downloadWorkshopItem cfg (download_env env) wid dp (fsys s3);
          tr = run_updates (updateProgress downloadId) (fst (snd dl)) s3;
          s4 = (last (s3 # tr))\<lparr>fsys := snd (snd dl)\<rparr>
      in [s1, s2, s3] @ tr @ [s4] @
         (case fst dl of
            None \<Rightarrow> []
          | Some (Inl e) \<Rightarrow> [pipeline_catch cfg downloadId e (clock env) s4]
          | Some (Inr downloadResult) \<Rightarrow>
              if \<not> w_success downloadResult
              then [pipeline_catch cfg downloadId ''SteamCMD download failed'' (clock env) s4]
              else (case verify_content cfg (fsys s4) dp wid of
                 Inl e \<Rightarrow> [pipeline_catch cfg downloadId e (clock env) s4]
               | Inr u \<Rightarrow>
                   archive_phase cfg env downloadId wid dp zp (w_method downloadResult) s4)))"

definition download_settles ::
  "config \<Rightarrow> pipeline_env \<Rightarrow> string \<Rightarrow> string \<Rightarrow> path \<Rightarrow> server \<Rightarrow> bool" where
  "download_settles cfg env downloadId wid dp st0 =
     (let s1 = updateStatus downloadId Preparing (\<lambda>d. d\<lparr>progress := 5\<rparr>) st0;
          s2 = s1\<lparr>fsys := (case ensureDir (fsys s1) dp of Inl e \<Rightarrow> fsys s1 | Inr f \<Rightarrow> f)\<rparr>;
          s3 = updateStatus downloadId Downloading (\<lambda>d. d\<lparr>progress := 10\<rparr>) s2
      in fst (downloadWorkshopItem cfg (download_env env) wid dp (fsys s3)) \<noteq> None)"

section \<open>The server as a transition system\<close>

text \<open>
  Every stretch of code that runs without awaiting and touches the module-level state is
  one event: the handlers, the timer of the sweep, the writes of a pipeline, and the
  external programs (steam client, archiver) changing the disk. \<open>Admit\<close> is the second
  half of the submit handler, which runs after the scraper has answered whatever the
  table holds by then.
\<close>

datatype event =
    Submit "string option" int workshopInfo
  | Admit string int workshopInfo
  | StatusQuery string
  | FileRequest string "(bound \<times> bound) option" bool
  | Cleanup string
  | ClearAll
  | Sweep int
  | SetPreparing string
  | EnsureWorkspace path
  | SetDownloading string
  | Progress string int
  | SetCreatingArchive string
  | Publish string path path "string option" int
  | Fail string string int
  | External "filesystem \<Rightarrow> filesystem"

fun step :: "config \<Rightarrow> event \<Rightarrow> server \<Rightarrow> server" where
  "step cfg (Submit url now wi) st = snd (submit cfg url now wi st)"
| "step cfg (Admit wid now wi) st = snd (admit cfg wid now wi st)"
| "step cfg (StatusQuery k) st = snd (status_query cfg k st)"
| "step cfg (FileRequest k rng finished) st = snd (download_file cfg k rng finished st)"
| "step cfg (Cleanup k) st = snd (cleanup cfg k st)"
| "step cfg ClearAll st = snd (clear cfg st)"
| "step cfg (Sweep now) st = sweep cfg now st"
| "step cfg (SetPreparing k) st = updateStatus k Preparing (\<lambda>d. d\<lparr>progress := 5\<rparr>) st"
| "step cfg (EnsureWorkspace dp) st =
     st\<lparr>fsys := (case ensureDir (fsys st) dp of Inl e \<Rightarrow> fsys st | Inr f \<Rightarrow> f)\<rparr>"
| "step cfg (SetDownloading k) st = updateStatus k Downloading (\<lambda>d. d\<lparr>progress := 10\<rparr>) st"
| "step cfg (Progress k p) st = updateProgress k p st"
| "step cfg (SetCreatingArchive k) st =
     updateStatus k Creating_archive (\<lambda>d. d\<lparr>progress := 65\<rparr>) st"
| "step cfg (Publish k archivePath zp m now) st =
     (case verify_archive cfg k archivePath zp m now st of Inl e \<Rightarrow> st | Inr st' \<Rightarrow> st')"
| "step cfg (Fail k msg now) st = pipeline_catch cfg k msg now st"
| "step cfg (External f) st = st\<lparr>fsys := f (fsys st)\<rparr>"

inductive reachable :: "config \<Rightarrow> server \<Rightarrow> bool" for cfg :: config where
  start: "reachable cfg (initial fs)"
| after: "reachable cfg st \<Longrightarrow> reachable cfg (step cfg ev st)"

definition keys :: "server \<Rightarrow> string set" where
  "keys st = fst ` set (activeDownloads st)"

definition progress_of :: "string \<Rightarrow> server \<Rightarrow> int" where
  "progress_of k st = (case get st k of None \<Rightarrow> 0 | Some d \<Rightarrow> progress d)"

section \<open>The log bus (WebSocketLogger)\<close>

text \<open>
  A record's id is \<^verbatim>\<open>Date.now() + Math.random()\<close>: the clock reading in milliseconds plus
  a fraction in \<open>[0, 1)\<close>, both inputs here, added exactly.
\<close>

record logEntry =
  entry_id :: rat
  timestamp :: int
  level :: string
  source :: string
  message :: string

datatype frame = History "logEntry list" | Single logEntry

text \<open>
  A socket object: whether its \<^verbatim>\<open>readyState\<close> is \<^verbatim>\<open>OPEN\<close>, whether \<^verbatim>\<open>send\<close> throws on it,
  and the frames sent to it so far. \<open>clients\<close> is the \<^verbatim>\<open>Set\<close> of sockets, by their index
  in \<open>sockets\<close>.
\<close>

record socket =
  isOpen :: bool
  throws :: bool
  frames :: "frame list"

record logger =
  sockets :: "socket list"
  clients :: "nat list"
  logHistory :: "logEntry list"




definition send :: "frame \<Rightarrow> socket \<Rightarrow> socket" where
  "send f s = s\<lparr>frames := frames s @ [f]\<rparr>"

text \<open>
  \<open>broadcast\<close> visits every client: an open one is sent the record (and is dropped from
  the set when \<^verbatim>\<open>send\<close> throws), any other is dropped.
\<close>

fun broadcast_to :: "logEntry \<Rightarrow> nat list \<Rightarrow> logger \<Rightarrow> logger" where
  "broadcast_to e [] lg = lg"
| "broadcast_to e (c # cs) lg =
     broadcast_to e cs
       (if c < length (sockets lg) \<and> isOpen (sockets lg ! c)
        then (if throws (sockets lg ! c)
              then lg\<lparr>clients := removeAll c (clients lg)\<rparr>
              else lg\<lparr>sockets := (sockets lg)[c := send (Single e) (sockets lg ! c)]\<rparr>)
        else lg\<lparr>clients := removeAll c (clients lg)\<rparr>)"








fun frame_ids :: "frame \<Rightarrow> rat list" where
  "frame_ids (History es) = map entry_id es"
| "frame_ids (Single e) = [entry_id e]"

definition received :: "socket \<Rightarrow> rat list" where
  "received s = concat (map frame_ids (frames s))"

section \<open>Invariants\<close>

text \<open>
  Every record that is \<open>Completed\<close> carries the download URL generated from its key: the
  pipeline stores it together with the status.
\<close>

definition url_inv :: "config \<Rightarrow> server \<Rightarrow> bool" where
  "url_inv cfg st =
     (\<forall>(k, d) \<in> set (activeDownloads st).
        status d = Completed \<longrightarrow> downloadUrl d = Some (generateDownloadUrl cfg k))"



section \<open>Sample inputs\<close>

definition sample_info :: workshopInfo where
  "sample_info = \<lparr>title = ''Some Mod'', isValid = True, isPrivate = False,
     requiresSubscription = False, isDayZ = True, info_appId = ''221100''\<rparr>"

definition sample_url :: string where
  "sample_url = ''https://steamcommunity.com/sharedfiles/filedetails/?id=1559212036''"

definition default_config :: config where
  "default_config = \<lparr>MAX_CONCURRENT_DOWNLOADS = None, CLEANUP_AFTER_DOWNLOAD = None,
     DOWNLOAD_PATH = None, DAYZ_APP_ID = None, NEXT_PUBLIC_API_URL = None,
     STEAM_USERNAME = None, PORT = 8080\<rparr>"

text \<open>A finished job \<open>k\<close> with its workspace \<open>/tmp/k\<close> and archive \<open>/tmp/k/1.zip\<close>.\<close>

definition finished_job :: "string \<Rightarrow> download" where
  "finished_job k = \<lparr>d_id = k, workshopId = ''1'', status = Completed, progress = 100,
     startTime = 0, info = sample_info,
     downloadPath = [''tmp'', k], zipPath = [''tmp'', k, ''1.zip''],
     downloadUrl = Some (generateDownloadUrl default_config k), fileSize = Some 600,
     completedTime = Some 9, dl_method = Some ''anonymous'', error = None, errorTime = None\<rparr>"

definition workspace_of :: "string \<Rightarrow> filesystem" where
  "workspace_of k = [([''tmp''], Dir), ([''tmp'', k], Dir), ([''tmp'', k, ''1.zip''], File 600)]"

definition full_table :: server where
  "full_table = \<lparr>activeDownloads = map (\<lambda>k. (k, finished_job k)) [''a'', ''b'', ''c''],
      downloadCounter = 3, cleanupQueue = [],
      fsys = workspace_of ''a'' @ workspace_of ''b'' @ workspace_of ''c''\<rparr>"

definition one_job :: server where
  "one_job = \<lparr>activeDownloads = [(''a'', finished_job ''a'')],
      downloadCounter = 1, cleanupQueue = [[''tmp'', ''a'']], fsys = workspace_of ''a''\<rparr>"

definition cleaning_config :: config where
  "cleaning_config = default_config\<lparr>CLEANUP_AFTER_DOWNLOAD := Some ''true''\<rparr>"

text \<open>
  A job admitted at time 0, whose archive of 600 bytes is then written and published.
\<close>

definition published :: server where
  "published =
     step default_config (Publish ''download_0_1'' [''z''] [''z''] None 7)
       (step default_config (External (\<lambda>fs. [([''z''], File 600)]))
         (step default_config (Admit ''1'' 0 sample_info) (initial [])))"

text \<open>
  Client runs: one that prints the login success markers and a success line but writes
  nothing; one that meets the second-factor prompt; one that is refused the item.
\<close>

definition boasting_run :: run where
  "boasting_run = \<lparr>chunks = [''Logged in OK'', ''Waiting for client config...OK'',
       ''Success. Downloaded item 1559212036''], ending = Exit 0, effect = (\<lambda>fs. fs)\<rparr>"

definition guard_run :: run where
  "guard_run = \<lparr>chunks = [''Steam Guard code:''], ending = Exit 0, effect = (\<lambda>fs. fs)\<rparr>"


definition workspace :: path where
  "workspace = [''tmp'', ''dayz-workshop-downloads'', ''download_0_1'']"


definition guard_attempt :: attempt where
  "guard_attempt = \<lparr>isAuth = False, cached_run = guard_run, login_run = guard_run\<rparr>"





text \<open>
  A pipeline run for the job admitted at time 0 with item 1: the client, in cached-session
  mode, writes one file under the expected content path and exits with code 0; the
  archiver closes after 600 bytes. In \<open>jumpy_env\<close> the archiver reports 1 of 1, then 2 of
  4, then 4 of 4 entries; in \<open>steady_env\<close> it reports 1, 2 and 4 of 4; in \<open>lockstep_env\<close>
  1 of 1, 2 of 2 and 3 of 3. In \<open>guarded_download\<close> every attempt of the retry loop meets
  the second-factor prompt and the plain invocation that follows fetches the item.
\<close>

definition good_run :: run where
  "good_run = \<lparr>chunks = [''Success. Downloaded item 1''], ending = Exit 0,
     effect = (\<lambda>fs. fs @ [(expectedPath workspace ''221100'' ''1'', Dir),
                            (expectedPath workspace ''221100'' ''1'' @ [''mod.pbo''], File 4096)])\<rparr>"

definition good_download :: wrapper_env where
  "good_download = \<lparr>steamcmdFound = True,
     attempts = (\<lambda>n. \<lparr>isAuth = True, cached_run = good_run, login_run = good_run\<rparr>),
     fallback_run = good_run\<rparr>"

definition steam_config :: config where
  "steam_config = default_config\<lparr>STEAM_USERNAME := Some ''steamuser''\<rparr>"

definition guarded_download :: wrapper_env where
  "guarded_download = \<lparr>steamcmdFound = True, attempts = (\<lambda>n. guard_attempt),
     fallback_run = good_run\<rparr>"

definition guarded_env :: pipeline_env where
  "guarded_env = \<lparr>download_env = guarded_download,
     archiver = \<lparr>progress_events = [(1, 1)], archive_end = Closed 600, partial_size = 0\<rparr>,
     clock = 7\<rparr>"

definition jumpy_env :: pipeline_env where
  "jumpy_env = \<lparr>download_env = good_download,
     archiver = \<lparr>progress_events = [(1, 1), (2, 4), (4, 4)], archive_end = Closed 600,
                  partial_size = 0\<rparr>,
     clock = 7\<rparr>"

definition steady_env :: pipeline_env where
  "steady_env = \<lparr>download_env = good_download,
     archiver = \<lparr>progress_events = [(1, 4), (2, 4), (4, 4)], archive_end = Closed 600,
                  partial_size = 0\<rparr>,
     clock = 7\<rparr>"

definition lockstep_env :: pipeline_env where
  "lockstep_env = \<lparr>download_env = good_download,
     archiver = \<lparr>progress_events = [(1, 1), (2, 2), (3, 3)], archive_end = Closed 600,
                  partial_size = 0\<rparr>,
     clock = 7\<rparr>"

definition admitted :: server where
  "admitted = step default_config (Admit ''1'' 0 sample_info) (initial [])"

definition tiny_env :: pipeline_env where
  "tiny_env = \<lparr>download_env = good_download,
     archiver = \<lparr>progress_events = [(1, 1)], archive_end = Closed 100, partial_size = 0\<rparr>,
     clock = 7\<rparr>"

definition ws_fs :: filesystem where
  "ws_fs = [([], Dir), ([''tmp''], Dir), ([''tmp'', ''dayz-workshop-downloads''], Dir), (workspace, Dir)]"

definition content_fs :: filesystem where
  "content_fs = ws_fs @ [(expectedPath workspace ''221100'' ''1'', Dir),
                         (expectedPath workspace ''221100'' ''1'' @ [''mod.pbo''], File 4096)]"

text \<open>
  A client that exits after leaving a regular file where the content directory is
  expected, met by an account without a session: the login that looks for the
  downloaded files stays pending, and so does the run that awaits it.
\<close>

definition stuck_run :: run where
  "stuck_run = \<lparr>chunks = [''Loading Steam API...OK''], ending = Exit 0,
     effect = (\<lambda>fs. fs @ [(expectedPath workspace ''221100'' ''1'', File 1)])\<rparr>"

definition stuck_download :: wrapper_env where
  "stuck_download = \<lparr>steamcmdFound = True,
     attempts = (\<lambda>n. \<lparr>isAuth = False, cached_run = stuck_run, login_run = stuck_run\<rparr>),
     fallback_run = good_run\<rparr>"

definition stuck_env :: pipeline_env where
  "stuck_env = \<lparr>download_env = stuck_download,
     archiver = \<lparr>progress_events = [(1, 1)], archive_end = Closed 100, partial_size = 0\<rparr>,
     clock = 7\<rparr>"


section \<open>Basic facts about the job table\<close>

lemma get_set_download [simp]: "get (set_download k d st) k' = (if k' = k then Some d else get st k')"
  by (simp add: get_def set_download_def AList.update_conv')

lemma get_delete_download [simp]: "get (delete_download k st) k' = (if k' = k then None else get st k')"
  by (simp add: get_def delete_download_def AList.delete_conv')

lemma activeDownloads_cleanupFiles [simp]:
  "activeDownloads (cleanupFiles cfg paths force st) = activeDownloads st"
proof -
  have "activeDownloads (fold (\<lambda>filePath s.
             if existsSync (fsys s) filePath
             then s\<lparr>fsys := remove (fsys s) filePath,
                    cleanupQueue := removeAll filePath (cleanupQueue s)\<rparr>
             else s) paths st) = activeDownloads st"
    by (induction paths arbitrary: st) auto
  then show ?thesis by (simp add: cleanupFiles_def)
qed

lemma get_cleanupFiles [simp]: "get (cleanupFiles cfg paths force st) k = get st k"
  by (simp add: get_def)

lemma set_download_same: "get st k = Some d \<Longrightarrow> set_download k d st = st"
  by (simp add: get_def set_download_def AList.update_triv)

lemma existsSync_remove [simp]: "\<not> existsSync (remove fs p) p"
  by (auto simp add: existsSync_def remove_def map_of_eq_None_iff)

lemma fsys_delete_download [simp]: "fsys (delete_download k st) = fsys st"
  by (simp add: delete_download_def)

lemma cleanupFiles_single:
  "cleanupFiles cfg [p] force st =
     (if shouldCleanup cfg force \<and> existsSync (fsys st) p
      then st\<lparr>fsys := remove (fsys st) p, cleanupQueue := removeAll p (cleanupQueue st)\<rparr>
      else st)"
  by (simp add: cleanupFiles_def)

lemma download_file_range [simp]: "snd (download_file cfg k (Some r) finished st) = st"
  by (cases r) (simp add: download_file_def Let_def split: option.splits bound.splits)

section \<open>Admission at capacity\<close>

lemma extractWorkshopId_sample: "extractWorkshopId sample_url = Some ''1559212036''"
  by (simp add: sample_url_def is_digit_def)

text \<open>
  C1 (as stated, refuted). The claim promises the capacity rejection for every submission
  that arrives at a full table. The handler validates the URL first: a request without
  a URL, or with one that carries no item identifier, is answered 400 although three
  records occupy a table of capacity three.
\<close>

theorem submit_at_capacity_counterexample:
  "int (size_downloads full_table) \<ge> maxConcurrent default_config
   \<and> code (fst (submit default_config None 0 sample_info full_table)) = 400
   \<and> code (fst (submit default_config (Some ''no item here'') 0 sample_info full_table)) = 400"
  by (simp add: submit_def full_table_def default_config_def maxConcurrent_def
      size_downloads_def is_digit_def)

text \<open>
  C1 (amended). For every submission whose URL is a string that carries an item identifier
  (\<^verbatim>\<open>id=<digits>\<close>) and that arrives when the table holds at least the configured maximum
  of records (3 when unset), the handler answers 429 with the current occupancy and the
  maximum in the body, and the whole state (table, counter, cleanup queue, disk) is
  unchanged: no record is created and the occupancy stays as it was. A submission
  whose URL is missing, or is a string without an item identifier, is answered 400
  whatever the occupancy, again with the state unchanged.
\<close>

theorem submit_at_capacity:
  "(extractWorkshopId u = Some wid \<and> int (size_downloads st) \<ge> maxConcurrent cfg
      \<longrightarrow> submit cfg (Some u) now wi st =
           (Response 429 (TooMany ''Too many concurrent downloads. Please try again later.''
              (size_downloads st) (maxConcurrent cfg)), st))
   \<and> (extractWorkshopId u = None
      \<longrightarrow> submit cfg (Some u) now wi st =
           (Response 400 (ErrorBody (if u = [] then ''URL is required''
                                     else ''Invalid Steam Workshop URL'')), st))
   \<and> submit cfg None now wi st = (Response 400 (ErrorBody ''URL is required''), st)
   \<and> (MAX_CONCURRENT_DOWNLOADS cfg = None \<longrightarrow> maxConcurrent cfg = 3)"
proof -
  have a: "extractWorkshopId u = Some wid \<Longrightarrow> int (size_downloads st) \<ge> maxConcurrent cfg
      \<Longrightarrow> submit cfg (Some u) now wi st =
           (Response 429 (TooMany ''Too many concurrent downloads. Please try again later.''
              (size_downloads st) (maxConcurrent cfg)), st)"
  proof -
    assume e: "extractWorkshopId u = Some wid" and c: "int (size_downloads st) \<ge> maxConcurrent cfg"
    from e have "u \<noteq> []" by auto
    with e c show ?thesis by (simp add: submit_def)
  qed
  have b: "extractWorkshopId u = None
      \<Longrightarrow> submit cfg (Some u) now wi st =
           (Response 400 (ErrorBody (if u = [] then ''URL is required''
                                     else ''Invalid Steam Workshop URL'')), st)"
    by (simp add: submit_def)
  have c: "submit cfg None now wi st = (Response 400 (ErrorBody ''URL is required''), st)"
    by (simp add: submit_def)
  have d: "MAX_CONCURRENT_DOWNLOADS cfg = None \<longrightarrow> maxConcurrent cfg = 3"
    by (simp add: maxConcurrent_def)
  from a b c d show ?thesis by blast
qed

theorem submit_at_capacity_witness:
  "extractWorkshopId sample_url = Some ''1559212036''
   \<and> int (size_downloads full_table) \<ge> maxConcurrent default_config
   \<and> MAX_CONCURRENT_DOWNLOADS default_config = None
   \<and> submit default_config (Some sample_url) 0 sample_info full_table =
       (Response 429 (TooMany ''Too many concurrent downloads. Please try again later.'' 3 3),
        full_table)
   \<and> extractWorkshopId ''no item here'' = None
   \<and> submit default_config (Some ''no item here'') 0 sample_info full_table =
       (Response 400 (ErrorBody ''Invalid Steam Workshop URL''), full_table)
   \<and> submit default_config None 0 sample_info full_table =
       (Response 400 (ErrorBody ''URL is required''), full_table)"
proof -
  have a: "extractWorkshopId sample_url = Some ''1559212036''"
    by (rule extractWorkshopId_sample)
  have b: "int (size_downloads full_table) \<ge> maxConcurrent default_config"
    by (simp add: full_table_def default_config_def maxConcurrent_def size_downloads_def)
  have c: "MAX_CONCURRENT_DOWNLOADS default_config = None"
    by (simp add: default_config_def)
  have d: "size_downloads full_table = 3"
    by (simp add: full_table_def size_downloads_def)
  have e: "extractWorkshopId ''no item here'' = None"
    by (simp add: is_digit_def)
  note t = submit_at_capacity [where u = sample_url and wid = "''1559212036''"
      and st = full_table and cfg = default_config and now = 0 and wi = sample_info]
  note t' = submit_at_capacity [where u = "''no item here''" and wid = "''1''"
      and st = full_table and cfg = default_config and now = 0 and wi = sample_info]
  from t a b c d have f: "submit default_config (Some sample_url) 0 sample_info full_table =
       (Response 429 (TooMany ''Too many concurrent downloads. Please try again later.'' 3 3),
        full_table)"
    by simp
  from t' e have g: "submit default_config (Some ''no item here'') 0 sample_info full_table =
       (Response 400 (ErrorBody ''Invalid Steam Workshop URL''), full_table)"
    by simp
  from t have h: "submit default_config None 0 sample_info full_table =
       (Response 400 (ErrorBody ''URL is required''), full_table)"
    by blast
  from a b c e f g h show ?thesis by (intro conjI)
qed

section \<open>Cleanup\<close>

text \<open>
  C6 (as stated, refuted). The claim promises success for a second cleanup of a job that
  has been cleaned. The first cleanup drops the record, so the second call finds none
  and answers 404.
\<close>

theorem cleanup_twice_counterexample:
  "code (fst (cleanup default_config ''a'' one_job)) = 200
   \<and> code (fst (cleanup default_config ''a'' (snd (cleanup default_config ''a'' one_job)))) = 404"
proof -
  have g: "get one_job ''a'' = Some (finished_job ''a'')"
    by (simp add: get_def one_job_def)
  have p: "downloadPath (finished_job ''a'') \<noteq> []"
    by (simp add: finished_job_def)
  show ?thesis
    by (simp add: cleanup_def g p)
qed

text \<open>
  C6 (amended). A second cleanup call for the same identifier always returns the
  not-found signal (404) and changes no state, whatever the first call did; and cleanup
  of an identifier that is not in the table returns the not-found signal and leaves the
  state as it is.
\<close>

theorem cleanup_idempotent:
  "cleanup cfg k (snd (cleanup cfg k st)) =
     (Response 404 (ErrorBody ''Download not found''), snd (cleanup cfg k st))
   \<and> (get st k = None \<longrightarrow> cleanup cfg k st = (Response 404 (ErrorBody ''Download not found''), st))"
  by (auto simp add: cleanup_def split: option.splits)

theorem cleanup_idempotent_witness:
  "get (initial []) ''a'' = None
   \<and> cleanup default_config ''a'' (initial []) =
       (Response 404 (ErrorBody ''Download not found''), initial [])
   \<and> cleanup default_config ''a'' (snd (cleanup default_config ''a'' one_job)) =
     (Response 404 (ErrorBody ''Download not found''), snd (cleanup default_config ''a'' one_job))"
  using cleanup_idempotent [of default_config "''a''" "initial []"]
    cleanup_idempotent [of default_config "''a''" one_job]
  by (simp add: get_def initial_def)

section \<open>File delivery\<close>

text \<open>
  C7 (as stated, refuted). The claim promises that a whole-file delivery disposes the
  workspace. The \<^verbatim>\<open>finish\<close> handler calls \<open>cleanupFiles\<close> without force, which removes
  nothing unless \<^verbatim>\<open>CLEANUP_AFTER_DOWNLOAD\<close> is \<^verbatim>\<open>'true'\<close>: with the variable unset, the
  workspace of a completed job is still on disk after its archive was delivered whole.
\<close>

theorem whole_file_delivery_counterexample:
  "status (finished_job ''a'') = Completed
   \<and> get one_job ''a'' = Some (finished_job ''a'')
   \<and> code (fst (download_file default_config ''a'' None True one_job)) = 200
   \<and> existsSync (fsys (snd (download_file default_config ''a'' None True one_job)))
        (downloadPath (finished_job ''a''))"
proof -
  have g: "get one_job ''a'' = Some (finished_job ''a'')"
    by (simp add: get_def one_job_def)
  have z: "existsSync (fsys one_job) (zipPath (finished_job ''a''))"
    by (simp add: one_job_def finished_job_def workspace_of_def existsSync_def)
  have w: "existsSync (fsys one_job) (downloadPath (finished_job ''a''))"
    by (simp add: one_job_def finished_job_def workspace_of_def existsSync_def)
  have s: "status (finished_job ''a'') = Completed"
    by (simp add: finished_job_def)
  have c: "\<not> shouldCleanup default_config False"
    by (simp add: shouldCleanup_def default_config_def)
  show ?thesis
    using g z w s c by (simp add: download_file_def cleanupFiles_def Let_def)
qed

text \<open>
  C7 (amended). For every Completed job whose archive is on disk, a whole-file
  (non-range) delivery that finishes drops the job record, and disposes the directory
  holding the archive (the workspace) when \<^verbatim>\<open>CLEANUP_AFTER_DOWNLOAD\<close> is \<^verbatim>\<open>'true'\<close>;
  otherwise the disk is left as it is. A byte-range request changes nothing: the table,
  the record, the cleanup queue and the disk, with the archive, are the same afterwards.
\<close>

theorem file_delivery_effects:
  assumes "get st k = Some d" and "status d = Completed"
    and "existsSync (fsys st) (zipPath d)"
  shows "snd (download_file cfg k None True st) =
           delete_download k (cleanupFiles cfg [butlast (zipPath d)] False st)
         \<and> get (snd (download_file cfg k None True st)) k = None
         \<and> (CLEANUP_AFTER_DOWNLOAD cfg = Some ''true'' \<longrightarrow>
              \<not> existsSync (fsys (snd (download_file cfg k None True st))) (butlast (zipPath d)))
         \<and> (CLEANUP_AFTER_DOWNLOAD cfg \<noteq> Some ''true'' \<longrightarrow>
              fsys (snd (download_file cfg k None True st)) = fsys st)
         \<and> (\<forall>r finished. snd (download_file cfg k (Some r) finished st) = st)"
proof -
  have whole: "snd (download_file cfg k None True st) =
           delete_download k (cleanupFiles cfg [butlast (zipPath d)] False st)"
    using assms by (simp add: download_file_def Let_def)
  have gone: "get (delete_download k (cleanupFiles cfg [butlast (zipPath d)] False st)) k = None"
    by simp
  have disposed: "CLEANUP_AFTER_DOWNLOAD cfg = Some ''true'' \<Longrightarrow>
      \<not> existsSync (fsys (delete_download k (cleanupFiles cfg [butlast (zipPath d)] False st)))
           (butlast (zipPath d))"
    by (simp add: cleanupFiles_single shouldCleanup_def)
  have kept: "CLEANUP_AFTER_DOWNLOAD cfg \<noteq> Some ''true'' \<Longrightarrow>
      fsys (delete_download k (cleanupFiles cfg [butlast (zipPath d)] False st)) = fsys st"
    by (simp add: cleanupFiles_single shouldCleanup_def)
  show ?thesis
    using whole gone disposed kept by simp
qed

theorem file_delivery_effects_witness:
  "get one_job ''a'' = Some (finished_job ''a'')
   \<and> status (finished_job ''a'') = Completed
   \<and> existsSync (fsys one_job) (zipPath (finished_job ''a''))
   \<and> CLEANUP_AFTER_DOWNLOAD cleaning_config = Some ''true''
   \<and> get (snd (download_file cleaning_config ''a'' None True one_job)) ''a'' = None
   \<and> \<not> existsSync (fsys (snd (download_file cleaning_config ''a'' None True one_job)))
          [''tmp'', ''a'']
   \<and> snd (download_file cleaning_config ''a'' (Some (Num 0, Absent)) True one_job) = one_job"
proof -
  have g: "get one_job ''a'' = Some (finished_job ''a'')"
    by (simp add: get_def one_job_def)
  have s: "status (finished_job ''a'') = Completed"
    by (simp add: finished_job_def)
  have z: "existsSync (fsys one_job) (zipPath (finished_job ''a''))"
    by (simp add: one_job_def finished_job_def workspace_of_def existsSync_def)
  have c: "CLEANUP_AFTER_DOWNLOAD cleaning_config = Some ''true''"
    by (simp add: cleaning_config_def)
  have b: "butlast (zipPath (finished_job ''a'')) = [''tmp'', ''a'']"
    by (simp add: finished_job_def)
  note t = file_delivery_effects [OF g s z, of cleaning_config, unfolded b]
  from t g s z c show ?thesis
    by blast
qed

section \<open>Status queries\<close>

lemma set_update_subset: "set (AList.update k v al) \<subseteq> insert (k, v) (set al)"
  by (induction al) auto

lemma url_inv_set_download:
  assumes "url_inv cfg st"
    and "status d = Completed \<Longrightarrow> downloadUrl d = Some (generateDownloadUrl cfg k)"
  shows "url_inv cfg (set_download k d st)"
  using assms set_update_subset [of k d "activeDownloads st"]
  by (auto simp add: url_inv_def set_download_def)

lemma url_inv_delete_download: "url_inv cfg st \<Longrightarrow> url_inv cfg (delete_download k st)"
  by (auto simp add: url_inv_def delete_download_def AList.delete_eq)

lemma url_inv_cong: "activeDownloads st' = activeDownloads st \<Longrightarrow> url_inv cfg st' = url_inv cfg st"
  by (simp add: url_inv_def)

lemma get_in_set: "get st k = Some d \<Longrightarrow> (k, d) \<in> set (activeDownloads st)"
  by (simp add: get_def map_of_SomeD)

lemma url_inv_get: "url_inv cfg st \<Longrightarrow> get st k = Some d \<Longrightarrow> status d = Completed
  \<Longrightarrow> downloadUrl d = Some (generateDownloadUrl cfg k)"
  by (auto simp add: url_inv_def dest: get_in_set)

lemma url_inv_cleanupFiles [simp]: "url_inv cfg (cleanupFiles cfg paths force st) = url_inv cfg st"
  by (simp add: url_inv_def)

lemma url_inv_updateStatus:
  "url_inv cfg st \<Longrightarrow> s \<noteq> Completed \<Longrightarrow> (\<And>d. status (f d) = status d)
   \<Longrightarrow> url_inv cfg (updateStatus k s f st)"
  by (auto simp add: updateStatus_def split: option.splits intro!: url_inv_set_download)

lemma url_inv_updateProgress: "url_inv cfg st \<Longrightarrow> url_inv cfg (updateProgress k p st)"
  by (auto simp add: updateProgress_def split: option.splits
      intro!: url_inv_set_download dest: url_inv_get)

lemma url_inv_pipeline_catch: "url_inv cfg st \<Longrightarrow> url_inv cfg (pipeline_catch cfg k msg now st)"
  by (auto simp add: pipeline_catch_def Let_def split: option.splits
      intro!: url_inv_set_download)

lemma url_inv_verify_archive:
  "url_inv cfg st \<Longrightarrow> verify_archive cfg k ap zp m now st = Inr st' \<Longrightarrow> url_inv cfg st'"
  by (auto simp add: verify_archive_def updateStatus_def Let_def split: if_splits option.splits
      intro!: url_inv_set_download)

lemma url_inv_admit: "url_inv cfg st \<Longrightarrow> url_inv cfg (snd (admit cfg wid now wi st))"
  by (auto simp add: admit_def Let_def intro!: url_inv_set_download)
     (simp_all add: url_inv_def)

lemma url_inv_submit: "url_inv cfg st \<Longrightarrow> url_inv cfg (snd (submit cfg url now wi st))"
  by (auto simp add: submit_def url_inv_admit split: option.splits)

lemma url_inv_status_query: "url_inv cfg st \<Longrightarrow> url_inv cfg (snd (status_query cfg k st))"
  by (auto simp add: status_query_def Let_def split: option.splits
      intro!: url_inv_set_download dest: url_inv_get)

lemma url_inv_download_file: "url_inv cfg st \<Longrightarrow> url_inv cfg (snd (download_file cfg k rng fin st))"
proof (cases rng)
  case None
  assume "url_inv cfg st"
  then show ?thesis using None
    by (auto simp add: download_file_def Let_def split: option.splits
        intro!: url_inv_delete_download)
next
  case (Some r)
  assume "url_inv cfg st"
  then show ?thesis using Some by simp
qed

lemma url_inv_cleanup: "url_inv cfg st \<Longrightarrow> url_inv cfg (snd (cleanup cfg k st))"
  by (auto simp add: cleanup_def split: option.splits intro!: url_inv_delete_download)

lemma url_inv_clear: "url_inv cfg (snd (clear cfg st))"
  by (simp add: clear_def Let_def url_inv_def)

lemma url_inv_sweep_fold:
  "url_inv cfg s \<Longrightarrow>
   url_inv cfg (fold (\<lambda>(downloadId, download) s.
        if now - startTime download > maxAge
        then delete_download downloadId
               (if downloadPath download \<noteq> []
                then cleanupFiles cfg [downloadPath download] True s else s)
        else s) xs s)"
proof (induction xs arbitrary: s)
  case Nil
  then show ?case by simp
next
  case (Cons x xs)
  obtain k d where x: "x = (k, d)" by (cases x)
  have "url_inv cfg (if now - startTime d > maxAge
        then delete_download k
               (if downloadPath d \<noteq> [] then cleanupFiles cfg [downloadPath d] True s else s)
        else s)"
    using Cons.prems by (auto intro!: url_inv_delete_download)
  then show ?case
    using Cons.IH x by simp
qed

lemma url_inv_sweep: "url_inv cfg st \<Longrightarrow> url_inv cfg (sweep cfg now st)"
  by (simp add: sweep_def url_inv_sweep_fold)

lemma url_inv_step: "url_inv cfg st \<Longrightarrow> url_inv cfg (step cfg ev st)"
proof (cases ev)
  case (Publish k ap zp m now)
  assume "url_inv cfg st"
  then show ?thesis using Publish
    by (auto split: sum.splits dest: url_inv_verify_archive)
qed (auto simp add: url_inv_submit url_inv_admit url_inv_status_query url_inv_download_file
      url_inv_cleanup url_inv_clear url_inv_sweep url_inv_updateProgress url_inv_pipeline_catch
      url_inv_def [of cfg "st\<lparr>fsys := _\<rparr>"] url_inv_def [of cfg st]
      intro!: url_inv_updateStatus)

lemma reachable_url_inv: "reachable cfg st \<Longrightarrow> url_inv cfg st"
  by (induction rule: reachable.induct) (auto simp add: url_inv_step, simp add: url_inv_def initial_def)

text \<open>
  C8. The body of a status answer is the JSON serialisation of the record, a value of
  its own: nothing done to it reaches the table. Serving the query assigns
  \<^verbatim>\<open>downloadUrl\<close> on the stored record of a completed job, which in every reachable state
  already holds that very URL. So in every reachable state a status query answers with
  the stored record (404 when there is none) and leaves the whole state, the stored
  record included, exactly as it was.
\<close>

theorem status_query_snapshot:
  assumes "reachable cfg st"
  shows "status_query cfg k st =
           ((case get st k of
               None \<Rightarrow> Response 404 (ErrorBody ''Download not found'')
             | Some d \<Rightarrow> Response 200 (StatusBody d)), st)"
proof (cases "get st k")
  case None
  then show ?thesis by (simp add: status_query_def)
next
  case (Some d)
  have inv: "url_inv cfg st" using assms by (rule reachable_url_inv)
  have same: "(if status d = Completed \<and> zipPath d \<noteq> []
               then d\<lparr>downloadUrl := Some (generateDownloadUrl cfg k)\<rparr> else d) = d"
    using url_inv_get [OF inv Some] by auto
  show ?thesis
    using Some same by (simp add: status_query_def Let_def set_download_same)
qed

lemma string_of_nat_0: "string_of_nat 0 = ''0''"
  by (simp add: string_of_nat.simps)

lemma string_of_nat_Suc0: "string_of_nat (Suc 0) = ''1''"
  by (simp add: string_of_nat.simps)

lemma admitted: "step default_config (Admit ''1'' 0 sample_info) (initial []) =
   \<lparr>activeDownloads =
    [(''download_0_1'',
      \<lparr>d_id = ''download_0_1'', workshopId = ''1'', status = Starting,
         progress = 0, startTime = 0,
         info = sample_info,
         downloadPath = [''tmp'', ''dayz-workshop-downloads'', ''download_0_1''],
         zipPath = [''tmp'', ''dayz-workshop-downloads'', ''download_0_1'', ''1.zip''],
         downloadUrl = None,
         fileSize = None, completedTime = None, dl_method = None,
         error = None, errorTime = None\<rparr>)],
    downloadCounter = 1,
    cleanupQueue = [[''tmp'', ''dayz-workshop-downloads'', ''download_0_1'']],
    fsys = []\<rparr>"
  by (simp add: initial_def admit_def sample_info_def default_config_def Let_def
      string_of_nat_0 string_of_nat_Suc0 downloadRoot_def set_download_def)

lemma published_status: "map_option status (get published ''download_0_1'') = Some Completed"
  unfolding published_def admitted
  by (simp add: verify_archive_def existsSync_def statSize_def minZipSize_def
      updateStatus_def get_def set_download_def)

theorem status_query_snapshot_witness:
  "reachable default_config published
   \<and> map_option status (get published ''download_0_1'') = Some Completed
   \<and> code (fst (status_query default_config ''download_0_1'' published)) = 200
   \<and> snd (status_query default_config ''download_0_1'' published) = published"
proof -
  have r: "reachable default_config published"
    unfolding published_def by (intro reachable.after reachable.start)
  obtain d where d: "get published ''download_0_1'' = Some d"
    using published_status by (cases "get published ''download_0_1''") auto
  from status_query_snapshot [OF r, of "''download_0_1''"] r d published_status
  show ?thesis by simp
qed

section \<open>Occupancy\<close>

lemma keys_set_download [simp]: "keys (set_download k d st) = insert k (keys st)"
  by (simp add: keys_def set_download_def AList.dom_update)

lemma keys_delete_download [simp]: "keys (delete_download k st) = keys st - {k}"
  by (auto simp add: keys_def delete_download_def AList.delete_eq)

lemma keys_cleanupFiles [simp]: "keys (cleanupFiles cfg paths force st) = keys st"
  by (simp add: keys_def)

lemma keys_fsys_update [simp]: "keys (st\<lparr>fsys := f\<rparr>) = keys st"
  by (simp add: keys_def)

lemma get_Some_keys: "get st k = Some d \<Longrightarrow> k \<in> keys st"
  by (auto simp add: keys_def dest: get_in_set intro: rev_image_eqI)

lemma keys_updateStatus [simp]: "keys (updateStatus k s f st) = keys st"
  by (auto simp add: updateStatus_def split: option.splits dest: get_Some_keys)

lemma keys_updateProgress [simp]: "keys (updateProgress k p st) = keys st"
  by (auto simp add: updateProgress_def split: option.splits dest: get_Some_keys)

lemma keys_pipeline_catch [simp]: "keys (pipeline_catch cfg k msg now st) = keys st"
  by (auto simp add: pipeline_catch_def Let_def split: option.splits dest: get_Some_keys)

lemma keys_verify_archive: "verify_archive cfg k ap zp m now st = Inr st' \<Longrightarrow> keys st' = keys st"
  by (auto simp add: verify_archive_def Let_def split: if_splits)

lemma keys_status_query [simp]: "keys (snd (status_query cfg k st)) = keys st"
  by (auto simp add: status_query_def Let_def split: option.splits dest: get_Some_keys)

lemma keys_admit: "keys st \<subseteq> keys (snd (admit cfg wid now wi st))"
  by (auto simp add: admit_def Let_def) (simp_all add: keys_def)

lemma keys_submit: "keys st \<subseteq> keys (snd (submit cfg url now wi st))"
  using keys_admit by (auto simp add: submit_def split: option.splits)

lemma keys_download_file:
  "k' \<in> keys st \<Longrightarrow> k' \<notin> keys (snd (download_file cfg k rng fin st))
   \<Longrightarrow> k' = k \<and> rng = None \<and> fin"
proof (cases rng)
  case None
  assume "k' \<in> keys st" "k' \<notin> keys (snd (download_file cfg k rng fin st))"
  then show ?thesis using None
    by (auto simp add: download_file_def Let_def split: option.splits if_splits)
next
  case (Some r)
  assume "k' \<in> keys st" "k' \<notin> keys (snd (download_file cfg k rng fin st))"
  then show ?thesis using Some by simp
qed

lemma keys_cleanup: "k' \<in> keys st \<Longrightarrow> k' \<notin> keys (snd (cleanup cfg k st)) \<Longrightarrow> k' = k"
  by (auto simp add: cleanup_def split: option.splits if_splits)

lemma keys_sweep_fold:
  "k \<in> keys s \<Longrightarrow>
   k \<notin> keys (fold (\<lambda>(downloadId, download) s.
        if now - startTime download > maxAge
        then delete_download downloadId
               (if downloadPath download \<noteq> []
                then cleanupFiles cfg [downloadPath download] True s else s)
        else s) xs s)
   \<Longrightarrow> \<exists>d. (k, d) \<in> set xs \<and> now - startTime d > maxAge"
proof (induction xs arbitrary: s)
  case Nil
  then show ?case by simp
next
  case (Cons x xs)
  obtain k' d' where x: "x = (k', d')" by (cases x)
  let ?s = "if now - startTime d' > maxAge
        then delete_download k'
               (if downloadPath d' \<noteq> [] then cleanupFiles cfg [downloadPath d'] True s else s)
        else s"
  show ?case
  proof (cases "k \<in> keys ?s")
    case True
    from Cons.IH [OF True] Cons.prems(2) x show ?thesis by auto
  next
    case False
    with Cons.prems(1) have "k' = k \<and> now - startTime d' > maxAge"
      by (auto split: if_splits)
    with x show ?thesis by auto
  qed
qed

lemma keys_sweep:
  "k \<in> keys st \<Longrightarrow> k \<notin> keys (sweep cfg now st)
   \<Longrightarrow> \<exists>d. (k, d) \<in> set (activeDownloads st) \<and> now - startTime d > maxAge"
  unfolding sweep_def by (rule keys_sweep_fold)

lemma length_update_present:
  "map_of al k = Some v \<Longrightarrow> length (AList.update k v' al) = length al"
  by (induction al) (auto split: if_splits)

lemma size_set_download_present:
  "get st k = Some d0 \<Longrightarrow> size_downloads (set_download k d st) = size_downloads st"
  by (simp add: get_def size_downloads_def set_download_def length_update_present)

lemma size_cleanupFiles [simp]: "size_downloads (cleanupFiles cfg paths force st) = size_downloads st"
  by (simp add: size_downloads_def)

lemma size_pipeline_catch: "size_downloads (pipeline_catch cfg k msg now st) = size_downloads st"
  by (auto simp add: pipeline_catch_def Let_def size_set_download_present split: option.splits)

lemma size_publish:
  "size_downloads (step cfg (Publish k ap zp m now) st) = size_downloads st"
  by (auto simp add: verify_archive_def updateStatus_def Let_def size_set_download_present
      split: option.splits)

text \<open>
  C10. The admission check counts the records of the table, whatever their status. A
  record leaves the table only through a whole-file delivery that finishes, an explicit
  cleanup of its identifier, a clear-all, or a sweep at a time more than two hours
  (7200000 ms) after its start time; no other event removes any record. Reaching
  \<open>Error\<close> (the pipeline's error handler) or \<open>Completed\<close> (publication) leaves the
  occupancy as it was, so such a record keeps its slot, and a submission with an item
  URL that meets a table at or above the cap is rejected with 429 whatever the statuses
  of the records in it.
\<close>

theorem records_occupy_until_removed:
  "(k \<in> keys st \<and> k \<notin> keys (step cfg ev st) \<longrightarrow>
      ev = FileRequest k None True \<or> ev = Cleanup k \<or> ev = ClearAll
      \<or> (\<exists>now d. ev = Sweep now \<and> (k, d) \<in> set (activeDownloads st)
            \<and> now - startTime d > maxAge))
   \<and> maxAge = 2 * 60 * 60 * 1000
   \<and> size_downloads (step cfg (Fail k msg t) st) = size_downloads st
   \<and> size_downloads (step cfg (Publish k ap zp m t) st) = size_downloads st
   \<and> (extractWorkshopId u = Some wid \<and> int (size_downloads st) \<ge> maxConcurrent cfg \<longrightarrow>
        code (fst (submit cfg (Some u) t wi st)) = 429)"
proof -
  have removal: "k \<in> keys st \<Longrightarrow> k \<notin> keys (step cfg ev st) \<Longrightarrow>
      ev = FileRequest k None True \<or> ev = Cleanup k \<or> ev = ClearAll
      \<or> (\<exists>now d. ev = Sweep now \<and> (k, d) \<in> set (activeDownloads st)
            \<and> now - startTime d > maxAge)"
  proof (cases ev)
    case (Submit url now wi)
    assume "k \<in> keys st" "k \<notin> keys (step cfg ev st)"
    then show ?thesis using Submit keys_submit [of st cfg url now wi] by auto
  next
    case (Admit wid now wi)
    assume "k \<in> keys st" "k \<notin> keys (step cfg ev st)"
    then show ?thesis using Admit keys_admit [of st cfg wid now wi] by auto
  next
    case (FileRequest k' rng fin)
    assume "k \<in> keys st" "k \<notin> keys (step cfg ev st)"
    then show ?thesis using FileRequest keys_download_file [of k st cfg k' rng fin] by auto
  next
    case (Cleanup k')
    assume "k \<in> keys st" "k \<notin> keys (step cfg ev st)"
    then show ?thesis using Cleanup keys_cleanup [of k st cfg k'] by auto
  next
    case (Sweep now)
    assume "k \<in> keys st" "k \<notin> keys (step cfg ev st)"
    then show ?thesis using Sweep keys_sweep [of k st cfg now] by auto
  next
    case (Publish k' ap' zp' m' now)
    assume "k \<in> keys st" "k \<notin> keys (step cfg ev st)"
    then show ?thesis using Publish
      by (auto split: sum.splits dest: keys_verify_archive)
  qed auto
  have admission: "extractWorkshopId u = Some wid \<Longrightarrow> int (size_downloads st) \<ge> maxConcurrent cfg
      \<Longrightarrow> code (fst (submit cfg (Some u) t wi st)) = 429"
  proof -
    assume a: "extractWorkshopId u = Some wid" and b: "int (size_downloads st) \<ge> maxConcurrent cfg"
    from a have "u \<noteq> []" by auto
    with a b show ?thesis by (simp add: submit_def)
  qed
  show ?thesis
    using removal admission size_publish [of cfg k ap zp m t st]
    by (simp add: size_pipeline_catch maxAge_def)
qed

theorem records_occupy_until_removed_witness:
  "''a'' \<in> keys one_job
   \<and> ''a'' \<notin> keys (step default_config (Sweep 7200001) one_job)
   \<and> (\<exists>d. (''a'', d) \<in> set (activeDownloads one_job) \<and> 7200001 - startTime d > maxAge)
   \<and> extractWorkshopId sample_url = Some ''1559212036''
   \<and> int (size_downloads full_table) \<ge> maxConcurrent default_config
   \<and> map (\<lambda>(k, d). status d) (activeDownloads full_table) = [Completed, Completed, Completed]
   \<and> code (fst (submit default_config (Some sample_url) 0 sample_info full_table)) = 429"
proof -
  have a: "''a'' \<in> keys one_job"
    by (simp add: keys_def one_job_def)
  have b: "''a'' \<notin> keys (step default_config (Sweep 7200001) one_job)"
    by (simp add: sweep_def one_job_def finished_job_def maxAge_def)
  have c: "extractWorkshopId sample_url = Some ''1559212036''"
    by (rule extractWorkshopId_sample)
  have d: "int (size_downloads full_table) \<ge> maxConcurrent default_config"
    by (simp add: full_table_def default_config_def maxConcurrent_def size_downloads_def)
  have e: "map (\<lambda>(k, d). status d) (activeDownloads full_table) = [Completed, Completed, Completed]"
    by (simp add: full_table_def finished_job_def)
  from records_occupy_until_removed [of "''a''" one_job default_config "Sweep 7200001"] a b
  have f: "\<exists>d. (''a'', d) \<in> set (activeDownloads one_job) \<and> 7200001 - startTime d > maxAge"
    by auto
  from records_occupy_until_removed [where st = full_table and cfg = default_config
      and u = sample_url and wid = "''1559212036''" and wi = sample_info and t = 0] c d
  have g: "code (fst (submit default_config (Some sample_url) 0 sample_info full_table)) = 429"
    by blast
  from a b c d e f g show ?thesis by blast
qed

section \<open>The adapter's outcomes\<close>

lemma retryable_messages:
  "retryable ''Download failed: SteamCMD error''"
  "retryable ''Download failed: No content found''"
  "retryable ''Download failed''"
  "retryable ''Anonymous download failed - item may require Steam account''"
  "retryable ''No content downloaded''"
  "retryable ''Download verification failed''"
  "retryable ''Download timeout''"
  "\<not> retryable ''STEAM_GUARD_REQUIRED''"
  by (simp_all add: retryable_def)

lemma guard_run_flags: "needsReauth guard_run" "needsSteamGuard guard_run" "ending guard_run = Exit 0"
  by (simp_all add: needsReauth_def needsSteamGuard_def guard_run_def seen_def)

lemma boasting_run_flags: "\<not> needsReauth boasting_run" "\<not> needsSteamGuard boasting_run"
  "ending boasting_run = Exit 0" "\<not> seen (chunks boasting_run) ''ERROR!''"
  "\<not> seen (chunks boasting_run) ''failed (Failure)''"
  "\<not> seen (chunks boasting_run) ''No subscription''"
  "\<not> seen (chunks boasting_run) ''Access Denied''"
  by (simp_all add: needsReauth_def needsSteamGuard_def boasting_run_def seen_def)

text \<open>
  C2 (as stated, refuted). The claim promises a retry-eligible failure whenever the
  expected content directory is absent or empty. A re-authentication marker takes
  precedence: a run that prints the second-factor prompt and writes nothing ends as
  \<^verbatim>\<open>SESSION_EXPIRED\<close> in cached-session mode and as \<^verbatim>\<open>STEAM_GUARD_REQUIRED\<close> with a full
  login, and the latter is the one error the retry loop does not retry.
\<close>

theorem fetch_without_content_counterexample:
  "\<not> existsSync [] (expectedPath workspace ''221100'' ''1559212036'')
   \<and> downloadWithCachedSession guard_run [] workspace ''221100'' ''1559212036''
       = Inl ''SESSION_EXPIRED''
   \<and> downloadWithFullLogin guard_run [] workspace ''221100'' ''1559212036''
       = Some (Inl ''STEAM_GUARD_REQUIRED'')
   \<and> \<not> retryable ''STEAM_GUARD_REQUIRED''"
  by (simp add: existsSync_def downloadWithCachedSession_def downloadWithFullLogin_def
      guard_run_flags retryable_messages)

text \<open>
  C2 (amended). For every invocation of the steam client by the adapter (cached-session,
  full-login or anonymous mode) that exits, with whatever exit code and output: if the
  expected content directory \<^verbatim>\<open>steamapps/workshop/content/{appId}/{itemId}\<close> under the
  workspace is absent or has no entries, the outcome is a failure and never a success.
  It is \<^verbatim>\<open>SESSION_EXPIRED\<close> (cached-session mode) or \<^verbatim>\<open>STEAM_GUARD_REQUIRED\<close> (full login)
  when a re-authentication marker was seen, and a retry-eligible failure otherwise;
  success markers in the output never make a success.
\<close>

theorem fetch_without_content:
  assumes "\<not> existsSync fs (expectedPath dp app wid)
           \<or> readdirSync fs (expectedPath dp app wid) = Inr []"
    and "ending r = Exit c"
  shows "(\<exists>e. downloadWithCachedSession r fs dp app wid = Inl e
            \<and> (needsReauth r \<longrightarrow> e = ''SESSION_EXPIRED'')
            \<and> (\<not> needsReauth r \<longrightarrow> retryable e))
         \<and> (\<exists>e. downloadWithFullLogin r fs dp app wid = Some (Inl e)
            \<and> (needsSteamGuard r \<longrightarrow> e = ''STEAM_GUARD_REQUIRED'')
            \<and> (\<not> needsSteamGuard r \<longrightarrow> retryable e))
         \<and> (\<exists>e. downloadAnonymous r fs dp app wid = Some (Inl e) \<and> retryable e)"
proof -
  from assms(1) have ne: "\<not> (existsSync fs (expectedPath dp app wid)
      \<and> has_entries fs (expectedPath dp app wid))"
    by (auto simp add: has_entries_def)
  have cached: "\<exists>e. downloadWithCachedSession r fs dp app wid = Inl e
            \<and> (needsReauth r \<longrightarrow> e = ''SESSION_EXPIRED'')
            \<and> (\<not> needsReauth r \<longrightarrow> retryable e)"
    using ne assms(2) by (auto simp add: downloadWithCachedSession_def Let_def retryable_messages)
  have full: "\<exists>e. downloadWithFullLogin r fs dp app wid = Some (Inl e)
            \<and> (needsSteamGuard r \<longrightarrow> e = ''STEAM_GUARD_REQUIRED'')
            \<and> (\<not> needsSteamGuard r \<longrightarrow> retryable e)"
    using assms by (auto simp add: downloadWithFullLogin_def retryable_messages)
  have anon: "\<exists>e. downloadAnonymous r fs dp app wid = Some (Inl e) \<and> retryable e"
    using assms by (auto simp add: downloadAnonymous_def Let_def retryable_messages)
  from cached full anon show ?thesis by blast
qed

theorem fetch_without_content_witness:
  "\<not> existsSync [] (expectedPath workspace ''221100'' ''1559212036'')
   \<and> ending boasting_run = Exit 0
   \<and> seen (chunks boasting_run) ''Logged in OK''
   \<and> downloadWithCachedSession boasting_run [] workspace ''221100'' ''1559212036''
       = Inl ''Download failed: No content found''
   \<and> retryable ''Download failed: No content found''"
proof -
  have a: "\<not> existsSync [] (expectedPath workspace ''221100'' ''1559212036'')"
    by (simp add: existsSync_def)
  have b: "seen (chunks boasting_run) ''Logged in OK''"
    by (simp add: boasting_run_def seen_def)
  have c: "downloadWithCachedSession boasting_run [] workspace ''221100'' ''1559212036''
       = Inl ''Download failed: No content found''"
    by (simp add: downloadWithCachedSession_def boasting_run_flags a)
  from fetch_without_content [OF disjI1 [OF a] boasting_run_flags(3)] c boasting_run_flags(1)
  have "retryable ''Download failed: No content found''"
    by auto
  with a b c boasting_run_flags(3) show ?thesis by simp
qed

section \<open>The retry loop\<close>










section \<open>The log bus\<close>

lemma received_send [simp]: "received (send f s) = received s @ frame_ids f"
  by (simp add: received_def send_def)


lemma broadcast_to_history [simp]: "logHistory (broadcast_to e cs lg) = logHistory lg"
  by (induction cs arbitrary: lg) auto

lemma broadcast_to_length [simp]: "length (sockets (broadcast_to e cs lg)) = length (sockets lg)"
  by (induction cs arbitrary: lg) auto







lemma received_update [simp]:
  "received (s\<lparr>isOpen := b\<rparr>) = received s" "received (s\<lparr>isOpen := b, throws := t\<rparr>) = received s"
  by (simp_all add: received_def)








section \<open>The pipeline\<close>

lemma get_fsys_update [simp]: "get (st\<lparr>fsys := f\<rparr>) k = get st k"
  by (simp add: get_def)

lemma fsys_set_download [simp]: "fsys (set_download k d st) = fsys st"
  by (simp add: set_download_def)

lemma fsys_updateStatus [simp]: "fsys (updateStatus k s f st) = fsys st"
  by (simp add: updateStatus_def split: option.splits)

lemma fsys_updateProgress [simp]: "fsys (updateProgress k p st) = fsys st"
  by (simp add: updateProgress_def split: option.splits)

lemma get_updateStatus:
  "get (updateStatus k s f st) k = map_option (\<lambda>d. f (d\<lparr>status := s\<rparr>)) (get st k)"
  by (simp add: updateStatus_def split: option.splits)

lemma get_updateProgress:
  "get (updateProgress k p st) k = map_option (\<lambda>d. d\<lparr>progress := min p 100\<rparr>) (get st k)"
  by (simp add: updateProgress_def split: option.splits)

lemma get_pipeline_catch:
  "get (pipeline_catch cfg k msg now st) k =
     map_option (\<lambda>d. d\<lparr>status := Error, error := Some msg, errorTime := Some now\<rparr>) (get st k)"
  by (simp add: pipeline_catch_def Let_def split: option.splits)

lemma progress_of_fsys [simp]: "progress_of k (st\<lparr>fsys := f\<rparr>) = progress_of k st"
  by (simp add: progress_of_def)

lemma progress_of_updateStatus:
  "get st k \<noteq> None \<Longrightarrow> progress_of k (updateStatus k s (\<lambda>d. d\<lparr>progress := c\<rparr>) st) = c"
  by (auto simp add: progress_of_def get_updateStatus)

lemma progress_of_updateProgress:
  "get st k \<noteq> None \<Longrightarrow> progress_of k (updateProgress k p st) = min p 100"
  by (auto simp add: progress_of_def get_updateProgress)

lemma progress_of_pipeline_catch [simp]:
  "progress_of k (pipeline_catch cfg k msg now st) = progress_of k st"
  by (cases "get st k") (simp_all add: progress_of_def get_pipeline_catch)

lemma run_updates_progress:
  "get s k \<noteq> None \<Longrightarrow>
   map (progress_of k) (run_updates (updateProgress k) calls s) = map (\<lambda>p. min p 100) calls
   \<and> get (last (s # run_updates (updateProgress k) calls s)) k \<noteq> None"
proof (induction calls arbitrary: s)
  case Nil
  then show ?case by simp
next
  case (Cons p calls)
  have "get (updateProgress k p s) k \<noteq> None"
    using Cons.prems by (simp add: get_updateProgress)
  from Cons.IH [OF this] Cons.prems show ?case
    by (simp add: progress_of_updateProgress)
qed

lemma last_run_updates_progress:
  assumes "get s k \<noteq> None"
  shows "progress_of k (last (s # run_updates (updateProgress k) calls s))
         = last (progress_of k s # map (\<lambda>p. min p 100) calls)"
proof -
  have "progress_of k (last (s # run_updates (updateProgress k) calls s))
        = last (map (progress_of k) (s # run_updates (updateProgress k) calls s))"
    by (simp only: last_map [symmetric] list.simps(3) not_False_eq_True)
  also have "\<dots> = last (progress_of k s # map (\<lambda>p. min p 100) calls)"
    using run_updates_progress [OF assms, of calls] by simp
  finally show ?thesis .
qed

lemma run_updates_status:
  "get s k = Some d \<Longrightarrow>
   \<exists>d'. get (last (s # run_updates (updateProgress k) calls s)) k = Some d'
        \<and> status d' = status d"
proof (induction calls arbitrary: s d)
  case Nil
  then show ?case by simp
next
  case (Cons p calls)
  have "get (updateProgress k p s) k = Some (d\<lparr>progress := min p 100\<rparr>)"
    using Cons.prems by (simp add: get_updateProgress)
  from Cons.IH [OF this] show ?case by simp
qed

lemma fallback_progress_bounds:
  "35 \<le> c \<Longrightarrow> c \<le> 55 \<Longrightarrow>
   sorted (c # fallback_progress cs c) \<and> (\<forall>p \<in> set (fallback_progress cs c). p \<le> 55)"
proof (induction cs arbitrary: c)
  case Nil
  then show ?case by simp
next
  case (Cons x cs)
  show ?case
  proof (cases "str_includes x ''downloading''")
    case True
    from Cons.IH [of "min (c + 2) 55"] Cons.prems True show ?thesis by auto
  next
    case False
    from Cons.IH [of c] Cons.prems False show ?thesis by simp
  qed
qed

lemma download_calls:
  "sorted (fst (snd (downloadWorkshopItem cfg env wid dp fs)))
   \<and> (\<forall>p \<in> set (fst (snd (downloadWorkshopItem cfg env wid dp fs))). 30 \<le> p \<and> p \<le> 60)"
proof -
  have fb: "sorted (35 # fallback_progress cs 35) \<and> (\<forall>p \<in> set (fallback_progress cs 35). p \<le> 55)" for cs
    by (rule fallback_progress_bounds) simp_all
  then have a: "sorted ([30, 35] @ fallback_progress cs 35)"
    and b: "sorted ([30, 35] @ fallback_progress cs 35 @ [60])"
    and c: "\<forall>p \<in> set (fallback_progress cs 35). 30 \<le> p \<and> p \<le> 60" for cs
    by (force simp add: sorted_append)+
  show ?thesis
    using a b c
    by (auto simp add: downloadWorkshopItem_def Let_def
        split: option.splits sum.splits proc_end.splits)
qed





lemma createZipArchive_Inr:
  "fst (createZipArchive cfg ar fs sp op wid) = Inr p \<Longrightarrow>
   p = op \<and> (\<exists>n. archive_end ar = Closed n \<and> 0 < n
               \<and> snd (snd (createZipArchive cfg ar fs sp op wid)) = writeFile fs op n)"
  by (auto simp add: createZipArchive_def Let_def split: sum.splits archive_end.splits if_splits)

lemma statSize_writeFile [simp]: "statSize (writeFile fs p n) p = n"
  by (simp add: statSize_def writeFile_def AList.update_conv')

lemma existsSync_writeFile [simp]: "existsSync (writeFile fs p n) p"
  by (simp add: existsSync_def writeFile_def AList.update_conv')

lemma verify_archive_Inr:
  "verify_archive cfg k ap zp m now s = Inr s' \<Longrightarrow>
   existsSync (fsys s) ap \<and> minZipSize \<le> statSize (fsys s) ap
   \<and> s' = updateStatus k Completed
         (\<lambda>d. d\<lparr>progress := 100, zipPath := zp,
                 downloadUrl := Some (generateDownloadUrl cfg k),
                 fileSize := Some (statSize (fsys s) ap), completedTime := Some now,
                 dl_method := m\<rparr>) s"
  by (auto simp add: verify_archive_def Let_def split: if_splits)

lemma archive_phase_unfold:
  "archive_phase cfg env k wid dp zp m s4 =
     [updateStatus k Creating_archive (\<lambda>d. d\<lparr>progress := 65\<rparr>) s4]
     @ run_updates (updateProgress k)
         (fst (snd (createZipArchive cfg (archiver env) (fsys s4) dp zp wid)))
         (updateStatus k Creating_archive (\<lambda>d. d\<lparr>progress := 65\<rparr>) s4)
     @ [(last (updateStatus k Creating_archive (\<lambda>d. d\<lparr>progress := 65\<rparr>) s4
              # run_updates (updateProgress k)
                  (fst (snd (createZipArchive cfg (archiver env) (fsys s4) dp zp wid)))
                  (updateStatus k Creating_archive (\<lambda>d. d\<lparr>progress := 65\<rparr>) s4)))
          \<lparr>fsys := snd (snd (createZipArchive cfg (archiver env) (fsys s4) dp zp wid))\<rparr>]
     @ (case fst (createZipArchive cfg (archiver env) (fsys s4) dp zp wid) of
          Inl e \<Rightarrow> [pipeline_catch cfg k e (clock env)
            ((last (updateStatus k Creating_archive (\<lambda>d. d\<lparr>progress := 65\<rparr>) s4
              # run_updates (updateProgress k)
                  (fst (snd (createZipArchive cfg (archiver env) (fsys s4) dp zp wid)))
                  (updateStatus k Creating_archive (\<lambda>d. d\<lparr>progress := 65\<rparr>) s4)))
              \<lparr>fsys := snd (snd (createZipArchive cfg (archiver env) (fsys s4) dp zp wid))\<rparr>)]
        | Inr archivePath \<Rightarrow>
            (case verify_archive cfg k archivePath zp m (clock env)
              ((last (updateStatus k Creating_archive (\<lambda>d. d\<lparr>progress := 65\<rparr>) s4
              # run_updates (updateProgress k)
                  (fst (snd (createZipArchive cfg (archiver env) (fsys s4) dp zp wid)))
                  (updateStatus k Creating_archive (\<lambda>d. d\<lparr>progress := 65\<rparr>) s4)))
              \<lparr>fsys := snd (snd (createZipArchive cfg (archiver env) (fsys s4) dp zp wid))\<rparr>) of
               Inl e \<Rightarrow> [pipeline_catch cfg k e (clock env)
                 ((last (updateStatus k Creating_archive (\<lambda>d. d\<lparr>progress := 65\<rparr>) s4
              # run_updates (updateProgress k)
                  (fst (snd (createZipArchive cfg (archiver env) (fsys s4) dp zp wid)))
                  (updateStatus k Creating_archive (\<lambda>d. d\<lparr>progress := 65\<rparr>) s4)))
              \<lparr>fsys := snd (snd (createZipArchive cfg (archiver env) (fsys s4) dp zp wid))\<rparr>)]
             | Inr s7 \<Rightarrow> [s7]))"
  unfolding archive_phase_def Let_def fsys_updateStatus ..


lemma archive_phase_final:
  assumes "get s4 k \<noteq> None"
  shows "\<exists>d. get (last (archive_phase cfg env k wid dp zp m s4)) k = Some d
          \<and> (status d = Error
              \<or> (status d = Completed \<and> zipPath d = zp
                  \<and> existsSync (fsys (last (archive_phase cfg env k wid dp zp m s4))) zp
                  \<and> (\<exists>n. archive_end (archiver env) = Closed n \<and> minZipSize \<le> n
                        \<and> fileSize d = Some n
                        \<and> statSize (fsys (last (archive_phase cfg env k wid dp zp m s4))) zp = n)))"
proof -
  define s5 where "s5 = updateStatus k Creating_archive (\<lambda>d. d\<lparr>progress := 65\<rparr>) s4"
  define zr where "zr = createZipArchive cfg (archiver env) (fsys s4) dp zp wid"
  define A where "A = fst (snd zr)"
  define tr2 where "tr2 = run_updates (updateProgress k) A s5"
  define s6 where "s6 = (last (s5 # tr2))\<lparr>fsys := snd (snd zr)\<rparr>"
  define tail where "tail = (case fst zr of
            Inl e \<Rightarrow> [pipeline_catch cfg k e (clock env) s6]
          | Inr archivePath \<Rightarrow>
              (case verify_archive cfg k archivePath zp m (clock env) s6 of
                 Inl e \<Rightarrow> [pipeline_catch cfg k e (clock env) s6]
               | Inr s7 \<Rightarrow> [s7]))"
  have unf: "archive_phase cfg env k wid dp zp m s4 = [s5] @ tr2 @ [s6] @ tail"
    unfolding archive_phase_unfold s5_def zr_def A_def tr2_def s6_def tail_def ..
  have ne: "tail \<noteq> []" by (simp add: tail_def split: sum.splits)
  have last: "last (archive_phase cfg env k wid dp zp m s4) = last tail"
    unfolding unf using ne by simp
  have p5: "get s5 k \<noteq> None" using assms by (simp add: s5_def get_updateStatus)
  have p6: "get s6 k \<noteq> None"
    unfolding s6_def tr2_def using run_updates_progress [OF p5, of A] by simp
  then obtain d6 where d6: "get s6 k = Some d6" by blast
  have caught: "\<exists>d. get (pipeline_catch cfg k e (clock env) s6) k = Some d \<and> status d = Error" for e
    using d6 by (simp add: get_pipeline_catch)
  show ?thesis
  proof (cases "fst zr")
    case (Inl e)
    then have "last tail = pipeline_catch cfg k e (clock env) s6" by (simp add: tail_def)
    then show ?thesis unfolding last using caught [of e] by auto
  next
    case (Inr ap)
    note zrr = this
    from createZipArchive_Inr [OF zrr [unfolded zr_def]] obtain n where
      ap: "ap = zp" and n: "archive_end (archiver env) = Closed n" "0 < n"
      and w: "snd (snd zr) = writeFile (fsys s4) zp n"
      unfolding zr_def by blast
    show ?thesis
    proof (cases "verify_archive cfg k ap zp m (clock env) s6")
      case (Inl e)
      then have "last tail = pipeline_catch cfg k e (clock env) s6" using zrr by (simp add: tail_def)
      then show ?thesis unfolding last using caught [of e] by auto
    next
      case (Inr s7)
      note v = verify_archive_Inr [OF Inr]
      have fs6: "fsys s6 = writeFile (fsys s4) zp n" using w by (simp add: s6_def)
      have sz: "statSize (fsys s6) ap = n" unfolding fs6 ap by simp
      from v sz have big: "minZipSize \<le> n" by simp
      from v have s7: "s7 = updateStatus k Completed
         (\<lambda>d. d\<lparr>progress := 100, zipPath := zp,
                 downloadUrl := Some (generateDownloadUrl cfg k),
                 fileSize := Some (statSize (fsys s6) ap), completedTime := Some (clock env),
                 dl_method := m\<rparr>) s6"
        by blast
      have fs7: "fsys s7 = writeFile (fsys s4) zp n"
        by (subst s7) (simp only: fsys_updateStatus fs6)
      have g7: "get s7 k = Some (d6\<lparr>status := Completed, progress := 100, zipPath := zp,
                 downloadUrl := Some (generateDownloadUrl cfg k),
                 fileSize := Some n, completedTime := Some (clock env), dl_method := m\<rparr>)"
        by (subst s7) (simp only: get_updateStatus d6 sz option.map)
      have l: "last tail = s7" using Inr zrr by (simp add: tail_def)
      show ?thesis
        unfolding last l using g7 fs7 n big by simp
    qed
  qed
qed






lemma pipeline_shape:
  assumes "get st0 k \<noteq> None"
  shows "\<exists>D tail s4. pipeline cfg env k wid dp zp st0 =
            [updateStatus k Preparing (\<lambda>d. d\<lparr>progress := 5\<rparr>) st0,
             (updateStatus k Preparing (\<lambda>d. d\<lparr>progress := 5\<rparr>) st0)
               \<lparr>fsys := (case ensureDir (fsys st0) dp of Inl e \<Rightarrow> fsys st0 | Inr f \<Rightarrow> f)\<rparr>]
            @ [updateStatus k Downloading (\<lambda>d. d\<lparr>progress := 10\<rparr>)
                ((updateStatus k Preparing (\<lambda>d. d\<lparr>progress := 5\<rparr>) st0)
                  \<lparr>fsys := (case ensureDir (fsys st0) dp of Inl e \<Rightarrow> fsys st0 | Inr f \<Rightarrow> f)\<rparr>)]
            @ run_updates (updateProgress k) D
                (updateStatus k Downloading (\<lambda>d. d\<lparr>progress := 10\<rparr>)
                ((updateStatus k Preparing (\<lambda>d. d\<lparr>progress := 5\<rparr>) st0)
                  \<lparr>fsys := (case ensureDir (fsys st0) dp of Inl e \<Rightarrow> fsys st0 | Inr f \<Rightarrow> f)\<rparr>))
            @ [s4] @ tail
          \<and> sorted D \<and> (\<forall>p \<in> set D. 30 \<le> p \<and> p \<le> 60)
          \<and> get s4 k \<noteq> None
          \<and> progress_of k s4 = last (10 # D)
          \<and> (if download_settles cfg env k wid dp st0
              then (\<exists>e. tail = [pipeline_catch cfg k e (clock env) s4])
                   \<or> (\<exists>m. tail = archive_phase cfg env k wid dp zp m s4)
              else tail = [] \<and> (\<exists>d. get s4 k = Some d \<and> status d = Downloading))"
proof -
  define s1 where "s1 = updateStatus k Preparing (\<lambda>d. d\<lparr>progress := 5\<rparr>) st0"
  define s2 where "s2 = s1\<lparr>fsys := (case ensureDir (fsys s1) dp of Inl e \<Rightarrow> fsys s1 | Inr f \<Rightarrow> f)\<rparr>"
  define s3 where "s3 = updateStatus k Downloading (\<lambda>d. d\<lparr>progress := 10\<rparr>) s2"
  define dl where "dl = downloadWorkshopItem cfg (download_env env) wid dp (fsys s3)"
  define D where "D = fst (snd dl)"
  define tr where "tr = run_updates (updateProgress k) D s3"
  define s4 where "s4 = (last (s3 # tr))\<lparr>fsys := snd (snd dl)\<rparr>"
  define tail where "tail = (case fst dl of
            None \<Rightarrow> []
          | Some (Inl e) \<Rightarrow> [pipeline_catch cfg k e (clock env) s4]
          | Some (Inr downloadResult) \<Rightarrow>
              if \<not> w_success downloadResult
              then [pipeline_catch cfg k ''SteamCMD download failed'' (clock env) s4]
              else (case verify_content cfg (fsys s4) dp wid of
                 Inl e \<Rightarrow> [pipeline_catch cfg k e (clock env) s4]
               | Inr u \<Rightarrow>
                   archive_phase cfg env k wid dp zp (w_method downloadResult) s4))"
  have unf: "pipeline cfg env k wid dp zp st0 = [s1, s2, s3] @ tr @ [s4] @ tail"
    unfolding pipeline_def Let_def s1_def s2_def s3_def dl_def D_def tr_def s4_def tail_def ..
  have f1: "fsys s1 = fsys st0" by (simp add: s1_def)
  have s2': "s2 = s1\<lparr>fsys := (case ensureDir (fsys st0) dp of Inl e \<Rightarrow> fsys st0 | Inr f \<Rightarrow> f)\<rparr>"
    by (simp only: s2_def f1)
  have p3: "get s3 k \<noteq> None"
    using assms by (simp add: s3_def s2_def s1_def get_updateStatus)
  have P3: "progress_of k s3 = 10"
    unfolding s3_def by (rule progress_of_updateStatus) (use assms in \<open>simp add: s2_def s1_def get_updateStatus\<close>)
  have dc: "sorted D" "\<forall>p \<in> set D. 30 \<le> p \<and> p \<le> 60"
    unfolding D_def dl_def using download_calls [of cfg "download_env env" wid dp "fsys s3"] by blast+
  have idm: "map (\<lambda>p. min p 100) D = D"
    using dc(2) by (intro map_idI) auto
  have p4: "get s4 k \<noteq> None"
    unfolding s4_def tr_def using run_updates_progress [OF p3, of D] by simp
  have P4: "progress_of k s4 = last (10 # D)"
    unfolding s4_def tr_def using last_run_updates_progress [OF p3, of D] P3 idm by simp
  have st: "download_settles cfg env k wid dp st0 = (fst dl \<noteq> None)"
    unfolding download_settles_def Let_def s1_def s2_def s3_def dl_def ..
  from p3 obtain d3 where d3: "get s3 k = Some d3" by blast
  have "status d3 = Downloading"
    using d3 assms by (auto simp add: s3_def s2_def s1_def get_updateStatus)
  with run_updates_status [OF d3, of D]
  have S4: "\<exists>d. get s4 k = Some d \<and> status d = Downloading"
    unfolding s4_def tr_def by simp
  have t: "if download_settles cfg env k wid dp st0
           then (\<exists>e. tail = [pipeline_catch cfg k e (clock env) s4])
                \<or> (\<exists>m. tail = archive_phase cfg env k wid dp zp m s4)
           else tail = [] \<and> (\<exists>d. get s4 k = Some d \<and> status d = Downloading)"
    unfolding st tail_def using S4 by (auto split: option.splits sum.splits)
  have eq: "pipeline cfg env k wid dp zp st0 =
            [s1, s1\<lparr>fsys := (case ensureDir (fsys st0) dp of Inl e \<Rightarrow> fsys st0 | Inr f \<Rightarrow> f)\<rparr>]
            @ [s3] @ run_updates (updateProgress k) D s3 @ [s4] @ tail"
    unfolding unf s2' [symmetric] tr_def by simp
  show ?thesis
    apply (rule exI [of _ D], rule exI [of _ tail], rule exI [of _ s4])
    using eq dc p4 P4 t unfolding s3_def s2' s1_def by (intro conjI)
qed



lemma pipeline_final:
  assumes "get st0 k \<noteq> None"
  shows "\<exists>d. get (last (pipeline cfg env k wid dp zp st0)) k = Some d
          \<and> (if download_settles cfg env k wid dp st0
              then status d = Error
                \<or> (status d = Completed \<and> zipPath d = zp
                    \<and> existsSync (fsys (last (pipeline cfg env k wid dp zp st0))) zp
                    \<and> (\<exists>n. archive_end (archiver env) = Closed n \<and> minZipSize \<le> n
                          \<and> fileSize d = Some n
                          \<and> statSize (fsys (last (pipeline cfg env k wid dp zp st0))) zp = n))
              else status d = Downloading)"
proof -
  from pipeline_shape [OF assms, of cfg env wid dp zp]
  obtain D tail s4 where
    eq0: "pipeline cfg env k wid dp zp st0 =
            [updateStatus k Preparing (\<lambda>d. d\<lparr>progress := 5\<rparr>) st0,
             (updateStatus k Preparing (\<lambda>d. d\<lparr>progress := 5\<rparr>) st0)
               \<lparr>fsys := (case ensureDir (fsys st0) dp of Inl e \<Rightarrow> fsys st0 | Inr f \<Rightarrow> f)\<rparr>]
            @ [updateStatus k Downloading (\<lambda>d. d\<lparr>progress := 10\<rparr>)
                ((updateStatus k Preparing (\<lambda>d. d\<lparr>progress := 5\<rparr>) st0)
                  \<lparr>fsys := (case ensureDir (fsys st0) dp of Inl e \<Rightarrow> fsys st0 | Inr f \<Rightarrow> f)\<rparr>)]
            @ run_updates (updateProgress k) D
                (updateStatus k Downloading (\<lambda>d. d\<lparr>progress := 10\<rparr>)
                ((updateStatus k Preparing (\<lambda>d. d\<lparr>progress := 5\<rparr>) st0)
                  \<lparr>fsys := (case ensureDir (fsys st0) dp of Inl e \<Rightarrow> fsys st0 | Inr f \<Rightarrow> f)\<rparr>))
            @ [s4] @ tail"
    and p4: "get s4 k \<noteq> None"
    and t: "if download_settles cfg env k wid dp st0
            then (\<exists>e. tail = [pipeline_catch cfg k e (clock env) s4])
                 \<or> (\<exists>m. tail = archive_phase cfg env k wid dp zp m s4)
            else tail = [] \<and> (\<exists>d. get s4 k = Some d \<and> status d = Downloading)"
    by (elim exE conjE) (rule that, assumption+)
  define pre where "pre =
            [updateStatus k Preparing (\<lambda>d. d\<lparr>progress := 5\<rparr>) st0,
             (updateStatus k Preparing (\<lambda>d. d\<lparr>progress := 5\<rparr>) st0)
               \<lparr>fsys := (case ensureDir (fsys st0) dp of Inl e \<Rightarrow> fsys st0 | Inr f \<Rightarrow> f)\<rparr>]
            @ [updateStatus k Downloading (\<lambda>d. d\<lparr>progress := 10\<rparr>)
                ((updateStatus k Preparing (\<lambda>d. d\<lparr>progress := 5\<rparr>) st0)
                  \<lparr>fsys := (case ensureDir (fsys st0) dp of Inl e \<Rightarrow> fsys st0 | Inr f \<Rightarrow> f)\<rparr>)]
            @ run_updates (updateProgress k) D
                (updateStatus k Downloading (\<lambda>d. d\<lparr>progress := 10\<rparr>)
                ((updateStatus k Preparing (\<lambda>d. d\<lparr>progress := 5\<rparr>) st0)
                  \<lparr>fsys := (case ensureDir (fsys st0) dp of Inl e \<Rightarrow> fsys st0 | Inr f \<Rightarrow> f)\<rparr>))"
  have eq: "pipeline cfg env k wid dp zp st0 = pre @ [s4] @ tail"
    unfolding pre_def eq0 by (simp only: append_assoc)
  show ?thesis
  proof (cases "download_settles cfg env k wid dp st0")
    case False
    with t have "tail = []" and "\<exists>d. get s4 k = Some d \<and> status d = Downloading"
      by simp_all
    with False show ?thesis unfolding eq by simp
  next
    case True
    with t have "(\<exists>e. tail = [pipeline_catch cfg k e (clock env) s4])
                 \<or> (\<exists>m. tail = archive_phase cfg env k wid dp zp m s4)"
      by simp
    then show ?thesis
    proof
      assume "\<exists>e. tail = [pipeline_catch cfg k e (clock env) s4]"
      then obtain e where e: "tail = [pipeline_catch cfg k e (clock env) s4]" ..
      from p4 obtain d4 where "get s4 k = Some d4" by blast
      with True show ?thesis unfolding eq e by (simp add: get_pipeline_catch)
    next
      assume "\<exists>m. tail = archive_phase cfg env k wid dp zp m s4"
      then obtain m where m: "tail = archive_phase cfg env k wid dp zp m s4" ..
      have ne: "archive_phase cfg env k wid dp zp m s4 \<noteq> []"
        by (simp add: archive_phase_def Let_def)
      have "last (pipeline cfg env k wid dp zp st0) = last (archive_phase cfg env k wid dp zp m s4)"
        unfolding eq m using ne by simp
      with archive_phase_final [OF p4, of cfg env wid dp zp m] True show ?thesis by simp
    qed
  qed
qed

section \<open>A sample run of the pipeline\<close>

lemma admitted_eq: "admitted =
   \<lparr>activeDownloads =
    [(''download_0_1'',
      \<lparr>d_id = ''download_0_1'', workshopId = ''1'', status = Starting,
         progress = 0, startTime = 0,
         info = sample_info,
         downloadPath = workspace,
         zipPath = workspace @ [''1.zip''],
         downloadUrl = None,
         fileSize = None, completedTime = None, dl_method = None,
         error = None, errorTime = None\<rparr>)],
    downloadCounter = 1,
    cleanupQueue = [workspace],
    fsys = []\<rparr>"
  unfolding admitted_def admitted by (simp add: workspace_def)

lemma ensure_ws: "ensureDir [] workspace = Inr ws_fs"
  by (simp add: ensureDir_def workspace_def ws_fs_def existsSync_def)

lemma content_exists: "existsSync content_fs (expectedPath workspace ''221100'' ''1'')"
  by (simp add: content_fs_def ws_fs_def existsSync_def expectedPath_def workspace_def)

lemma content_entries: "readdirSync content_fs (expectedPath workspace ''221100'' ''1'') = Inr [''mod.pbo'']"
  by (simp add: content_fs_def ws_fs_def readdirSync_def entries_def expectedPath_def workspace_def)

lemma good_run_flags: "\<not> needsReauth good_run" "ending good_run = Exit 0"
  "effect good_run ws_fs = content_fs"
  by (simp_all add: needsReauth_def good_run_def seen_def content_fs_def)

lemma good_cached:
  "downloadWithCachedSession good_run content_fs workspace ''221100'' ''1'' =
     Inr \<lparr>success = True, via = ''cached_session'',
          content = expectedPath workspace ''221100'' ''1'', stdout = concat (chunks good_run)\<rparr>"
  by (simp add: downloadWithCachedSession_def good_run_flags content_exists has_entries_def
      content_entries Let_def)

lemma good_retry:
  "retryDownload (attempts good_download) ''anonymous'' workspace ''221100'' ''1'' ws_fs =
     \<lparr>outcome = Some (Inr \<lparr>success = True, via = ''cached_session'',
          content = expectedPath workspace ''221100'' ''1'', stdout = concat (chunks good_run)\<rparr>),
      attempts_made = 1, delays = [], failures = [], disk = content_fs\<rparr>"
proof -
  have d: "downloader_downloadWorkshopItem (attempts good_download (Suc 0)) ''anonymous'' ws_fs
             workspace ''221100'' ''1'' =
           (Some (Inr \<lparr>success = True, via = ''cached_session'',
              content = expectedPath workspace ''221100'' ''1'', stdout = concat (chunks good_run)\<rparr>),
            content_fs)"
    by (simp add: downloader_downloadWorkshopItem_def good_download_def good_run_flags good_cached
        Let_def)
  have ne: "expectedPath workspace ''221100'' ''1'' \<noteq> []" by (simp add: expectedPath_def)
  show ?thesis
    by (simp add: retryDownload_def retry_loop.simps [of _ _ _ _ _ "Suc 0"] d verified_def
        content_exists content_entries retryCount_def Let_def ne)
qed

lemma good_wrapper:
  "downloadWorkshopItem default_config good_download ''1'' workspace ws_fs =
     (Some (Inr \<lparr>w_success = True, w_output = concat (chunks good_run),
                  w_method = Some ''cached_session''\<rparr>),
      [30, 60], content_fs)"
proof -
  have u: "steamUsername default_config = ''anonymous''" "appId default_config = ''221100''"
    by (simp_all add: steamUsername_def appId_def default_config_def)
  have f: "steamcmdFound good_download" by (simp add: good_download_def)
  show ?thesis
    by (simp add: downloadWorkshopItem_def u f good_retry Let_def)
qed


lemma good_content: "verify_content default_config content_fs workspace ''1'' = Inr ()"
  by (simp add: verify_content_def appId_def default_config_def content_exists)

lemma good_locate: "locate_content default_config content_fs workspace ''1''
    = Inr (expectedPath workspace ''221100'' ''1'')"
  by (simp add: locate_content_def appId_def default_config_def content_exists content_entries Let_def)

lemma good_zip:
  "archive_end ar = Closed 600 \<Longrightarrow>
   createZipArchive default_config ar content_fs workspace (workspace @ [''1.zip'']) ''1'' =
     (Inr (workspace @ [''1.zip'']),
      map archive_percent (filter (\<lambda>e. snd e > 0) (progress_events ar)) @ [100],
      writeFile content_fs (workspace @ [''1.zip'']) 600)"
  by (simp add: createZipArchive_def good_locate Let_def)

lemma jumpy_percents:
  "map archive_percent (filter (\<lambda>e. snd e > 0) (progress_events (archiver jumpy_env))) = [95, 82, 95]"
  by (simp add: jumpy_env_def archive_percent_def)

lemma steady_percents:
  "map archive_percent (filter (\<lambda>e. snd e > 0) (progress_events (archiver steady_env))) = [76, 82, 95]"
  by (simp add: steady_env_def archive_percent_def)


lemma env_facts:
  "download_env jumpy_env = good_download" "archive_end (archiver jumpy_env) = Closed 600"
  "clock jumpy_env = 7"
  "download_env steady_env = good_download" "archive_end (archiver steady_env) = Closed 600"
  "clock steady_env = 7"
  "download_env lockstep_env = good_download" "archive_end (archiver lockstep_env) = Closed 600"
  "clock lockstep_env = 7"
  "download_env tiny_env = good_download" "archive_end (archiver tiny_env) = Closed 100"
  by (simp_all add: jumpy_env_def steady_env_def lockstep_env_def tiny_env_def)

lemma admitted_get: "get admitted ''download_0_1'' \<noteq> None" "fsys admitted = []"
  by (simp_all add: admitted_eq get_def)

lemma good_settles:
  "download_env env = good_download \<Longrightarrow>
   download_settles default_config env ''download_0_1'' ''1'' workspace admitted"
  by (simp add: download_settles_def Let_def admitted_get ensure_ws good_wrapper)

lemma progress_of_updateStatus_the:
  "get st k \<noteq> None \<Longrightarrow>
   progress_of k (updateStatus k s f st) = progress (f ((the (get st k))\<lparr>status := s\<rparr>))"
  by (auto simp add: progress_of_def get_updateStatus)

lemma jumpy_trace:
  "map (progress_of ''download_0_1'')
     (pipeline default_config jumpy_env ''download_0_1'' ''1'' workspace (workspace @ [''1.zip''])
        admitted)
   = [5, 5, 10, 30, 60, 60, 65, 95, 82, 95, 100, 100, 100]"
  by (simp add: pipeline_def archive_phase_def Let_def env_facts admitted_get ensure_ws good_wrapper
      good_content good_zip jumpy_percents verify_archive_def minZipSize_def
      progress_of_updateStatus_the progress_of_updateProgress get_updateStatus get_updateProgress)



lemma steady_final:
  "map_option (\<lambda>d. (status d, fileSize d, zipPath d))
     (get (last (pipeline default_config steady_env ''download_0_1'' ''1'' workspace
                   (workspace @ [''1.zip'']) admitted)) ''download_0_1'')
   = Some (Completed, Some 600, workspace @ [''1.zip''])"
  by (simp add: pipeline_def archive_phase_def Let_def env_facts admitted_get ensure_ws good_wrapper
      good_content good_zip steady_percents verify_archive_def minZipSize_def
      get_updateStatus get_updateProgress admitted_eq get_def [of "\<lparr>activeDownloads = _, downloadCounter = _, cleanupQueue = _, fsys = _\<rparr>"]
      option.map_comp comp_def)

section \<open>The retry policy\<close>






lemma steam_config_facts:
  "steamUsername steam_config = ''steamuser''" "appId steam_config = ''221100''"
  "attempts guarded_download = (\<lambda>n. guard_attempt)" "steamcmdFound guarded_download"
  "fallback_run guarded_download = good_run"
  "download_env guarded_env = guarded_download" "archive_end (archiver guarded_env) = Closed 600"
  "clock guarded_env = 7"
  by (simp_all add: steamUsername_def appId_def steam_config_def default_config_def
      guarded_download_def guarded_env_def)












section \<open>Progress within a run\<close>






text \<open>
  The condition on the events is needed in this model of the run: were the archiver to
  report 1 of 1 entries and then 2 of 4, the handler would compute 95 and then 82, and
  \<open>updateProgress\<close>, which does not compare with the value stored before, would record
  them in that order.
\<close>

lemma unordered_events_trace:
  "map (progress_of ''download_0_1'')
       (pipeline default_config jumpy_env ''download_0_1'' ''1'' workspace
          (workspace @ [''1.zip'']) admitted)
     = [5, 5, 10, 30, 60, 60, 65, 95, 82, 95, 100, 100, 100]"
  by (rule jumpy_trace)

section \<open>Completion\<close>

text \<open>A run whose download step stays pending.\<close>

lemma stuck_login:
  "downloadWithFullLogin stuck_run (effect stuck_run ws_fs) workspace ''221100'' ''1'' = None"
  by (simp add: downloadWithFullLogin_def stuck_run_def needsSteamGuard_def seen_def
      existsSync_def readdirSync_def ws_fs_def expectedPath_def workspace_def)

lemma stuck_retry:
  "retryDownload (attempts stuck_download) ''steamuser'' workspace ''221100'' ''1'' ws_fs =
     \<lparr>outcome = None, attempts_made = 1, delays = [], failures = [],
      disk = effect stuck_run ws_fs\<rparr>"
proof -
  have d: "downloader_downloadWorkshopItem (attempts stuck_download (Suc 0)) ''steamuser'' ws_fs
             workspace ''221100'' ''1'' = (None, effect stuck_run ws_fs)"
    by (simp add: downloader_downloadWorkshopItem_def stuck_download_def stuck_login Let_def)
  show ?thesis
    by (simp add: retryDownload_def retry_loop.simps [of _ _ _ _ _ "Suc 0"] d retryCount_def
        Let_def)
qed

lemma stuck_settles:
  "\<not> download_settles steam_config stuck_env ''download_0_1'' ''1'' workspace admitted"
proof -
  have e: "download_env stuck_env = stuck_download" "steamcmdFound stuck_download"
    by (simp_all add: stuck_env_def stuck_download_def)
  show ?thesis
    by (simp add: download_settles_def Let_def admitted_get ensure_ws downloadWorkshopItem_def
        e steam_config_facts stuck_retry)
qed

text \<open>
  C4. For a job present in the table when its pipeline starts: if the run ends with the job
  Completed, the recorded archive size is at least 512 bytes, and the archive file exists in the
  final filesystem at the archive path of the record, with that size; and a run whose archiver
  closes an output smaller than 512 bytes ends with the job in Error. The latter is said of
  the runs whose download step returns or throws; a run whose download step stays pending
  builds no archive, and its job stays Downloading.
\<close>

theorem completed_archive_verified:
  assumes "get st0 k = Some d0"
  shows "(\<forall>d. get (last (pipeline cfg env k wid dp zp st0)) k = Some d \<and> status d = Completed
            \<longrightarrow> (\<exists>n. fileSize d = Some n \<and> 512 \<le> n
                    \<and> existsSync (fsys (last (pipeline cfg env k wid dp zp st0))) (zipPath d)
                    \<and> statSize (fsys (last (pipeline cfg env k wid dp zp st0))) (zipPath d) = n))
         \<and> (\<forall>n. archive_end (archiver env) = Closed n \<and> n < 512
            \<longrightarrow> (\<exists>d. get (last (pipeline cfg env k wid dp zp st0)) k = Some d
                    \<and> (if download_settles cfg env k wid dp st0 then status d = Error
                        else status d = Downloading)))"
proof -
  have present: "get st0 k \<noteq> None" using assms by simp
  from pipeline_final [OF present, of cfg env wid dp zp]
  show ?thesis by (auto simp add: minZipSize_def split: if_splits)
qed

theorem completed_archive_verified_witness:
  "get admitted ''download_0_1'' =
     Some \<lparr>d_id = ''download_0_1'', workshopId = ''1'', status = Starting,
         progress = 0, startTime = 0, info = sample_info, downloadPath = workspace,
         zipPath = workspace @ [''1.zip''], downloadUrl = None,
         fileSize = None, completedTime = None, dl_method = None,
         error = None, errorTime = None\<rparr>
   \<and> map_option (\<lambda>d. (status d, fileSize d, zipPath d))
       (get (last (pipeline default_config steady_env ''download_0_1'' ''1'' workspace
                   (workspace @ [''1.zip'']) admitted)) ''download_0_1'')
     = Some (Completed, Some 600, workspace @ [''1.zip''])
   \<and> existsSync (fsys (last (pipeline default_config steady_env ''download_0_1'' ''1'' workspace
                   (workspace @ [''1.zip'']) admitted))) (workspace @ [''1.zip''])
   \<and> statSize (fsys (last (pipeline default_config steady_env ''download_0_1'' ''1'' workspace
                   (workspace @ [''1.zip'']) admitted))) (workspace @ [''1.zip'']) = 600
   \<and> archive_end (archiver tiny_env) = Closed 100
   \<and> download_settles default_config tiny_env ''download_0_1'' ''1'' workspace admitted
   \<and> (\<exists>d. get (last (pipeline default_config tiny_env ''download_0_1'' ''1'' workspace
                   (workspace @ [''1.zip'']) admitted)) ''download_0_1'' = Some d
          \<and> status d = Error)
   \<and> archive_end (archiver stuck_env) = Closed 100
   \<and> \<not> download_settles steam_config stuck_env ''download_0_1'' ''1'' workspace admitted
   \<and> (\<exists>d. get (last (pipeline steam_config stuck_env ''download_0_1'' ''1'' workspace
                   (workspace @ [''1.zip'']) admitted)) ''download_0_1'' = Some d
          \<and> status d = Downloading)"
proof -
  have g: "get admitted ''download_0_1'' =
     Some \<lparr>d_id = ''download_0_1'', workshopId = ''1'', status = Starting,
         progress = 0, startTime = 0, info = sample_info, downloadPath = workspace,
         zipPath = workspace @ [''1.zip''], downloadUrl = None,
         fileSize = None, completedTime = None, dl_method = None,
         error = None, errorTime = None\<rparr>"
    by (simp add: admitted_eq get_def)
  let ?final = "last (pipeline default_config steady_env ''download_0_1'' ''1'' workspace
                   (workspace @ [''1.zip'']) admitted)"
  from steady_final obtain d where d: "get ?final ''download_0_1'' = Some d"
    "status d = Completed" "fileSize d = Some 600" "zipPath d = workspace @ [''1.zip'']"
    by (cases "get ?final ''download_0_1''") auto
  from completed_archive_verified [OF g, of default_config steady_env "''1''" workspace
      "workspace @ [''1.zip'']"] d
  have a: "existsSync (fsys ?final) (workspace @ [''1.zip''])
           \<and> statSize (fsys ?final) (workspace @ [''1.zip'']) = 600"
    by auto
  have t: "archive_end (archiver tiny_env) = Closed 100" by (simp add: tiny_env_def)
  have u: "download_settles default_config tiny_env ''download_0_1'' ''1'' workspace admitted"
    by (rule good_settles) (rule env_facts)
  from completed_archive_verified [OF g, of default_config tiny_env "''1''" workspace
      "workspace @ [''1.zip'']"] t u
  have b: "\<exists>d. get (last (pipeline default_config tiny_env ''download_0_1'' ''1'' workspace
                   (workspace @ [''1.zip'']) admitted)) ''download_0_1'' = Some d
          \<and> status d = Error"
    by auto
  have t': "archive_end (archiver stuck_env) = Closed 100" by (simp add: stuck_env_def)
  from completed_archive_verified [OF g, of steam_config stuck_env "''1''" workspace
      "workspace @ [''1.zip'']"] t' stuck_settles
  have c: "\<exists>d. get (last (pipeline steam_config stuck_env ''download_0_1'' ''1'' workspace
                   (workspace @ [''1.zip'']) admitted)) ''download_0_1'' = Some d
          \<and> status d = Downloading"
    by auto
  from g steady_final a t u b t' stuck_settles c show ?thesis by blast
qed

end
